theory Spec2Isabelle
  imports Main
begin

section \<open>Syntax trees\<close>

text \<open>
  The converter never looks at source text directly: every file is first parsed by the
  TypeScript compiler API and the converter walks the resulting syntax tree. The tree is the
  input of this development. A node is one of the shapes the converter tests for, with
  exactly the properties it reads:
  \<^item> \<open>StringLiteral t\<close>, \<open>NumericLiteral t\<close>: \<open>t\<close> is the node's \<open>text\<close> (for a number the
    canonical decimal text the scanner stores, so that \<open>+text\<close> printed again is \<open>t\<close>);
  \<^item> \<open>Identifier s\<close>: \<open>s\<close> is its \<open>escapedText\<close>;
  \<^item> \<open>PropertyAccessExpression e n\<close>: \<open>e\<close> is \<open>expression\<close>, \<open>n\<close> the \<open>escapedText\<close> of \<open>name\<close>;
  \<^item> \<open>CallExpression e args\<close>: \<open>expression\<close> and \<open>arguments\<close>;
  \<^item> \<open>TaggedTemplateExpression tag t\<close>: \<open>t\<close> is \<open>template.text\<close>, absent for a template
    with substitutions;
  \<^item> \<open>ArrowFunction b\<close>: \<open>b\<close> is \<open>body\<close>;
  \<^item> \<open>OtherNode e args n t\<close>: a node of any other kind. The converter reads four properties
    of a node without testing its kind first, and a node of another kind may have any of
    them: \<open>e\<close> is \<open>expression\<close>, \<open>args\<close> is \<open>arguments\<close>, \<open>n\<close> the \<open>escapedText\<close> of \<open>name\<close> and
    \<open>t\<close> is \<open>text\<close>. A \<open>new\<close> expression has the first two, an element access or a non-null
    assertion the first, a function expression a name, a template literal without
    substitutions a text.
  An element of an object literal is a \<open>PropertyAssignment\<close> with its \<open>name\<close> node and its
  \<open>initializer\<close>, or something else (shorthand, spread, method).

  Strings are read as ASCII text. Plain objects that the converter uses as dictionaries are
  association lists in insertion order. The parser writes a name that begins with two
  underscores with a third one in \<open>escapedText\<close>, so no name that the converter takes from
  the tree is \<open>__proto__\<close>, and it never assigns to that key.
\<close>

datatype node =
    StringLiteral string
  | NumericLiteral string
  | Identifier string
  | TrueKeyword
  | FalseKeyword
  | ArrayLiteralExpression "node list"
  | ObjectLiteralExpression "property list"
  | ParenthesizedExpression node
  | TaggedTemplateExpression node "string option"
  | CallExpression node "node list"
  | PropertyAccessExpression node string
  | ArrowFunction node
  | OtherNode "node option" "node list option" "string option" "string option"
and property =
    PropertyAssignment node node
  | OtherObjectElement

datatype error = TypeError

text \<open>The node tests of the converter; each of them is false on an absent node.\<close>

fun isStr :: "node option \<Rightarrow> bool" where
  "isStr (Some (StringLiteral t)) = True"
| "isStr _ = False"

fun isNum :: "node option \<Rightarrow> bool" where
  "isNum (Some (NumericLiteral t)) = True"
| "isNum _ = False"

fun isArr :: "node option \<Rightarrow> bool" where
  "isArr (Some (ArrayLiteralExpression es)) = True"
| "isArr _ = False"

fun isObj :: "node option \<Rightarrow> bool" where
  "isObj (Some (ObjectLiteralExpression ps)) = True"
| "isObj _ = False"

fun isPar :: "node option \<Rightarrow> bool" where
  "isPar (Some (ParenthesizedExpression e)) = True"
| "isPar _ = False"

fun isSqlTagged :: "node option \<Rightarrow> bool" where
  "isSqlTagged (Some (TaggedTemplateExpression (Identifier s) t)) = (s = ''sql'')"
| "isSqlTagged _ = False"

text \<open>Property reads that give \<open>undefined\<close> on a node without the property.\<close>

fun escapedText :: "node \<Rightarrow> string option" where
  "escapedText (Identifier s) = Some s"
| "escapedText _ = None"

fun nameText :: "node \<Rightarrow> string option" where
  "nameText (PropertyAccessExpression e n) = Some n"
| "nameText (OtherNode e args n t) = n"
| "nameText _ = None"

fun expressionOf :: "node \<Rightarrow> node option" where
  "expressionOf (CallExpression e args) = Some e"
| "expressionOf (PropertyAccessExpression e n) = Some e"
| "expressionOf (ParenthesizedExpression e) = Some e"
| "expressionOf (OtherNode e args n t) = e"
| "expressionOf _ = None"

fun argumentsOf :: "node \<Rightarrow> node list option" where
  "argumentsOf (CallExpression e args) = Some args"
| "argumentsOf (OtherNode e args n t) = args"
| "argumentsOf _ = None"

fun textOf :: "node \<Rightarrow> string option" where
  "textOf (StringLiteral t) = Some t"
| "textOf (NumericLiteral t) = Some t"
| "textOf (Identifier s) = Some s"
| "textOf (OtherNode e args n t) = t"
| "textOf _ = None"

definition arg0 :: "node list \<Rightarrow> node option" where
  "arg0 args = (case args of [] \<Rightarrow> None | a # _ \<Rightarrow> Some a)"

definition arg1 :: "node list \<Rightarrow> node option" where
  "arg1 args = (case args of a # b # _ \<Rightarrow> Some b | _ \<Rightarrow> None)"

definition arg2 :: "node list \<Rightarrow> node option" where
  "arg2 args = (case args of a # b # c # _ \<Rightarrow> Some c | _ \<Rightarrow> None)"

text \<open>A string or \<open>undefined\<close> used as a property key, and truthiness of such a value.\<close>

definition keyOf :: "string option \<Rightarrow> string" where
  "keyOf k = (case k of None \<Rightarrow> ''undefined'' | Some s \<Rightarrow> s)"

definition truthy :: "string option \<Rightarrow> bool" where
  "truthy v = (case v of None \<Rightarrow> False | Some s \<Rightarrow> s \<noteq> [])"

text \<open>\<open>obj[k] = v\<close> on a dictionary: an existing key keeps its place, a new one goes last.\<close>

fun setProp :: "string \<Rightarrow> 'v \<Rightarrow> (string \<times> 'v) list \<Rightarrow> (string \<times> 'v) list" where
  "setProp k v [] = [(k, v)]"
| "setProp k v (p # ps) = (if fst p = k then (k, v) # ps else p # setProp k v ps)"

text \<open>
  \<open>obj[k]\<close> on a dictionary gives the value stored under the key; without one, the member
  that every object inherits from \<open>Object.prototype\<close> under that key; and else \<open>undefined\<close>.
  An inherited member is a function, except for \<open>__proto__\<close>, which is the prototype itself.
  \<open>memberName\<close> is the \<open>name\<close> property of the member and \<open>memberText\<close> the string that Node
  makes of it in a template or as a property key.
\<close>

datatype 'v read = Value 'v | Member string | Undefined

definition inheritedKeys :: "string list" where
  "inheritedKeys =
     [''constructor'', ''__defineGetter__'', ''__defineSetter__'', ''hasOwnProperty'',
      ''__lookupGetter__'', ''__lookupSetter__'', ''isPrototypeOf'', ''propertyIsEnumerable'',
      ''toString'', ''valueOf'', ''__proto__'', ''toLocaleString'']"

definition getProp :: "(string \<times> 'v) list \<Rightarrow> string \<Rightarrow> 'v read" where
  "getProp obj k =
     (case map_of obj k of
        Some v \<Rightarrow> Value v
      | None \<Rightarrow> if k \<in> set inheritedKeys then Member k else Undefined)"

definition memberName :: "string \<Rightarrow> string option" where
  "memberName k =
     (if k = ''__proto__'' then None
      else if k = ''constructor'' then Some ''Object'' else Some k)"

definition memberText :: "string \<Rightarrow> string" where
  "memberText k =
     (case memberName k of
        None \<Rightarrow> ''[object Object]''
      | Some n \<Rightarrow> ''function '' @ n @ ''() { [native code] }'')"

text \<open>What was read from a dictionary of strings, as a property key, and its truthiness.\<close>

definition toKey :: "string read \<Rightarrow> string" where
  "toKey v = (case v of Value s \<Rightarrow> s | Member k \<Rightarrow> memberText k | Undefined \<Rightarrow> ''undefined'')"

definition truthyRead :: "string read \<Rightarrow> bool" where
  "truthyRead v = (case v of Value s \<Rightarrow> s \<noteq> [] | Member k \<Rightarrow> True | Undefined \<Rightarrow> False)"

text \<open>
  \<open>Object.entries\<close> lists the keys that are array indices (canonical decimal numbers below
  \<open>2^32 - 1\<close>) first, in ascending order, and then the other keys in insertion order.
\<close>

definition isDigit :: "char \<Rightarrow> bool" where
  "isDigit c = (let n = of_char c :: nat in 48 \<le> n \<and> n \<le> 57)"

fun digitsLe :: "string \<Rightarrow> string \<Rightarrow> bool" where
  "digitsLe [] ys = True"
| "digitsLe (x # xs) [] = False"
| "digitsLe (x # xs) (y # ys) = ((of_char x :: nat) < of_char y \<or> (x = y \<and> digitsLe xs ys))"

definition indexLe :: "string \<Rightarrow> string \<Rightarrow> bool" where
  "indexLe a b \<longleftrightarrow> length a < length b \<or> (length a = length b \<and> digitsLe a b)"

definition isArrayIndex :: "string \<Rightarrow> bool" where
  "isArrayIndex s \<longleftrightarrow>
     s \<noteq> [] \<and> list_all isDigit s \<and> (s = ''0'' \<or> hd s \<noteq> CHR ''0'') \<and>
     indexLe s ''4294967294''"

fun insertEntry :: "string \<times> 'v \<Rightarrow> (string \<times> 'v) list \<Rightarrow> (string \<times> 'v) list" where
  "insertEntry e [] = [e]"
| "insertEntry e (x # xs) = (if indexLe (fst e) (fst x) then e # x # xs else x # insertEntry e xs)"

definition ownEntries :: "(string \<times> 'v) list \<Rightarrow> (string \<times> 'v) list" where
  "ownEntries obj =
     foldr insertEntry (filter (\<lambda>(k, v). isArrayIndex k) obj) [] @
     filter (\<lambda>(k, v). \<not> isArrayIndex k) obj"

section \<open>Names\<close>

definition upperChar :: "char \<Rightarrow> char" where
  "upperChar c = (let n = of_char c :: nat in if 97 \<le> n \<and> n \<le> 122 then char_of (n - 32) else c)"

definition lowerChar :: "char \<Rightarrow> char" where
  "lowerChar c = (let n = of_char c :: nat in if 65 \<le> n \<and> n \<le> 90 then char_of (n + 32) else c)"

definition isLowerAZ :: "char \<Rightarrow> bool" where
  "isLowerAZ c = (let n = of_char c :: nat in 97 \<le> n \<and> n \<le> 122)"

definition isUpperAZ :: "char \<Rightarrow> bool" where
  "isUpperAZ c = (let n = of_char c :: nat in 65 \<le> n \<and> n \<le> 90)"

fun splitOn :: "char \<Rightarrow> string \<Rightarrow> string list" where
  "splitOn d [] = [[]]"
| "splitOn d (c # cs) =
     (if c = d then [] # splitOn d cs
      else (case splitOn d cs of [] \<Rightarrow> [[c]] | w # ws \<Rightarrow> (c # w) # ws))"

definition capitalize :: "string \<Rightarrow> string" where
  "capitalize w = (case w of [] \<Rightarrow> [] | c # cs \<Rightarrow> upperChar c # cs)"

definition stripUnderscores :: "string \<Rightarrow> string" where
  "stripUnderscores s =
     rev (dropWhile (\<lambda>c. c = CHR ''_'') (rev (dropWhile (\<lambda>c. c = CHR ''_'') s)))"

definition snakeToPascal :: "string \<Rightarrow> string" where
  "snakeToPascal s =
     concat (map capitalize (filter (\<lambda>w. w \<noteq> []) (splitOn CHR ''_'' (stripUnderscores s))))"

definition pascal :: "string option \<Rightarrow> string" where
  "pascal w = (case w of None \<Rightarrow> [] | Some s \<Rightarrow> capitalize s)"

fun insertUnderscores :: "string \<Rightarrow> string" where
  "insertUnderscores (a # b # cs) =
     (if isLowerAZ a \<and> isUpperAZ b then a # CHR ''_'' # b # insertUnderscores cs
      else a # insertUnderscores (b # cs))"
| "insertUnderscores cs = cs"

definition toSnake :: "string \<Rightarrow> string" where
  "toSnake s = map lowerChar (insertUnderscores s)"

section \<open>Column descriptors\<close>

definition typeMap :: "(string \<times> string) list" where
  "typeMap =
    [(''uuid'', ''uuid''), (''varchar'', ''varchar''), (''char'', ''char''), (''text'', ''text''),
     (''bigint'', ''bigint''), (''int'', ''int''), (''integer'', ''int''),
     (''smallint'', ''smallint''), (''numeric'', ''numeric''), (''decimal'', ''decimal''),
     (''float'', ''float''), (''double'', ''double''), (''boolean'', ''boolean''),
     (''timestamp'', ''timestamp''), (''timestamptz'', ''timestamptz''), (''date'', ''date''),
     (''time'', ''time''), (''json'', ''json''), (''jsonb'', ''jsonb''),
     (''geometry'', ''geometry''), (''geography'', ''geography'')]"

text \<open>
  A property value is a number (by its text), a string, a boolean, a list of strings or an
  inherited member; a stored default is one of the first three and a type is a string or,
  for a builder named like an inherited member, that member. The flags that the
  converter only ever sets to \<open>true\<close> are booleans here, \<open>False\<close> standing for an absent
  property; the other optional properties are absent as \<open>None\<close>.
\<close>

datatype jsval = JNum string | JStr string | JBool bool | JList "string list" | JMember string

definition toType :: "string option \<Rightarrow> jsval" where
  "toType x =
     (case getProp typeMap (keyOf x) of
        Value t \<Rightarrow> JStr t
      | Member k \<Rightarrow> JMember k
      | Undefined \<Rightarrow> JStr ''text'')"

record column =
  col_type :: jsval
  col_nullable :: bool
  col_name :: "string option"
  col_length :: "string option"
  col_precision :: "string option"
  col_scale :: "string option"
  col_enum :: "string list option"
  col_primary :: bool
  col_unique :: bool
  col_array :: bool
  col_generated :: "string option"
  col_default :: "jsval option"
  col_createDate :: bool
  col_updateDate :: bool
  col_referencesVar :: "string option"
  col_onDelete :: "string option"
  col_onUpdate :: "string option"
  col_cascade :: bool

definition newColumn :: column where
  "newColumn = \<lparr> col_type = JStr ''text'', col_nullable = True, col_name = None, col_length = None,
     col_precision = None, col_scale = None, col_enum = None, col_primary = False,
     col_unique = False, col_array = False, col_generated = None, col_default = None,
     col_createDate = False, col_updateDate = False, col_referencesVar = None,
     col_onDelete = None, col_onUpdate = None, col_cascade = False \<rparr>"

fun hasInfix :: "string \<Rightarrow> string \<Rightarrow> bool" where
  "hasInfix p [] = (p = [])"
| "hasInfix p (c # cs) = (take (length p) (c # cs) = p \<or> hasInfix p cs)"

definition unwrapSqlTag :: "node option \<Rightarrow> string option" where
  "unwrapSqlTag n =
     (if \<not> isSqlTagged n then None
      else (case n of
              Some (TaggedTemplateExpression tag tx) \<Rightarrow>
                if hasInfix ''current_timestamp'' (map lowerChar (keyOf tx))
                then Some ''CURRENT_TIMESTAMP'' else None
            | _ \<Rightarrow> None))"

definition quoted :: "string \<Rightarrow> string" where
  "quoted s = [CHR 0x27] @ s @ [CHR 0x27]"

definition overrideDefaultIfSqlTagged :: "node option \<Rightarrow> string option" where
  "overrideDefaultIfSqlTagged a =
     (case unwrapSqlTag a of
        None \<Rightarrow> None
      | Some s \<Rightarrow> if s \<noteq> [] then Some (quoted s) else None)"

text \<open>
  The root of a builder chain: the loop steps from a call on a property access to the
  expression the property is read from.
\<close>

fun chainRoot :: "node \<Rightarrow> node" where
  "chainRoot (CallExpression (PropertyAccessExpression e n) args) = chainRoot e"
| "chainRoot n = n"

text \<open>
  An element of an \<open>enum\<close> array gives its text, the name it accesses, or else its source
  text; the source text of a node is supplied by the parser, here as \<open>getText\<close>.
\<close>

fun enumMember :: "(node \<Rightarrow> string) \<Rightarrow> node \<Rightarrow> string" where
  "enumMember getText (StringLiteral t) = t"
| "enumMember getText e = (case nameText e of Some n \<Rightarrow> n | None \<Rightarrow> getText e)"

fun applyOption :: "(node \<Rightarrow> string) \<Rightarrow> property \<Rightarrow> column \<Rightarrow> column" where
  "applyOption getText OtherObjectElement col = col"
| "applyOption getText (PropertyAssignment nm v) col =
     (let k = escapedText nm;
          c1 = (if k = Some ''length'' \<and> isNum (Some v) then col\<lparr>col_length := textOf v\<rparr> else col);
          c2 = (if k = Some ''precision'' \<and> isNum (Some v) then c1\<lparr>col_precision := textOf v\<rparr> else c1);
          c3 = (if k = Some ''scale'' \<and> isNum (Some v) then c2\<lparr>col_scale := textOf v\<rparr> else c2);
          c4 = (case v of
                  ArrayLiteralExpression es \<Rightarrow>
                    if k = Some ''enum''
                    then c3\<lparr>col_enum := Some (map (enumMember getText) es), col_type := JStr ''enum''\<rparr>
                    else c3
                | _ \<Rightarrow> c3)
      in if k = Some ''withTimezone'' \<and> v = TrueKeyword then c4\<lparr>col_type := JStr ''timestamptz''\<rparr>
         else c4)"

text \<open>The value that \<open>default(arg)\<close> stores; \<open>None\<close> is \<open>undefined\<close>.\<close>

fun literalDefault :: "node \<Rightarrow> jsval option" where
  "literalDefault (NumericLiteral t) = Some (JNum t)"
| "literalDefault (StringLiteral t) = Some (JStr (quoted t))"
| "literalDefault TrueKeyword = Some (JBool True)"
| "literalDefault FalseKeyword = Some (JBool False)"
| "literalDefault _ = None"

definition defaultValue :: "node option \<Rightarrow> jsval option" where
  "defaultValue arg =
     (case overrideDefaultIfSqlTagged arg of
        Some s \<Rightarrow> Some (JStr s)
      | None \<Rightarrow> (case arg of None \<Rightarrow> Some (JBool True) | Some a \<Rightarrow> literalDefault a))"

fun applyReferenceOption :: "property \<Rightarrow> column \<Rightarrow> column" where
  "applyReferenceOption OtherObjectElement col = col"
| "applyReferenceOption (PropertyAssignment nm v) col =
     (let k = escapedText nm;
          c1 = (case v of StringLiteral t \<Rightarrow>
                  if k = Some ''onDelete'' then col\<lparr>col_onDelete := Some t\<rparr> else col
                | _ \<Rightarrow> col);
          c2 = (case v of StringLiteral t \<Rightarrow>
                  if k = Some ''onUpdate'' then c1\<lparr>col_onUpdate := Some t\<rparr> else c1
                | _ \<Rightarrow> c1)
      in if k = Some ''cascade'' \<and> v = TrueKeyword then c2\<lparr>col_cascade := True\<rparr> else c2)"

definition references :: "node list \<Rightarrow> column \<Rightarrow> error + column" where
  "references args col =
     (case arg0 args of
        None \<Rightarrow> Inl TypeError
      | Some arg \<Rightarrow>
          (let c1 = (case arg of
                       ArrowFunction (PropertyAccessExpression e n) \<Rightarrow>
                         col\<lparr>col_referencesVar := escapedText e\<rparr>
                     | _ \<Rightarrow> col)
           in Inr (case arg1 args of
                     Some (ObjectLiteralExpression ps) \<Rightarrow> fold applyReferenceOption ps c1
                   | _ \<Rightarrow> c1)))"

text \<open>One frame of the chain: the \<open>switch\<close> on the method name of the call.\<close>

definition applyMethod ::
  "string option \<Rightarrow> string option \<Rightarrow> node list \<Rightarrow> column \<Rightarrow> error + column" where
  "applyMethod name method args col =
     (if method = Some ''notNull'' then Inr (col\<lparr>col_nullable := False\<rparr>)
      else if method = Some ''primaryKey'' then Inr (col\<lparr>col_primary := True, col_nullable := False\<rparr>)
      else if method = Some ''unique'' then Inr (col\<lparr>col_unique := True\<rparr>)
      else if method = Some ''array'' then Inr (col\<lparr>col_array := True\<rparr>)
      else if method = Some ''$onUpdate'' then Inr (col\<lparr>col_updateDate := True\<rparr>)
      else if method = Some ''default'' then Inr (col\<lparr>col_default := defaultValue (arg0 args)\<rparr>)
      else if method = Some ''defaultRandom''
        then Inr (col\<lparr>col_generated := Some ''uuid'', col_type := JStr ''uuid'', col_nullable := False\<rparr>)
      else if method = Some ''defaultNow''
        then Inr (if name \<noteq> Some ''createdAt'' then col\<lparr>col_default := Some (JBool True)\<rparr> else col)
      else if method = Some ''references'' then references args col
      else Inr col)"

text \<open>
  The walk over the frames, outermost call first: each call applies the method that its
  callee names, if it names one, and the walk goes on at \<open>call.expression.expression\<close> while
  that is a call.
\<close>

function (sequential) applyModifiers :: "string option \<Rightarrow> node \<Rightarrow> column \<Rightarrow> error + column" where
  "applyModifiers name (CallExpression callee args) col =
     (case applyMethod name (nameText callee) args col of
        Inl e \<Rightarrow> Inl e
      | Inr col' \<Rightarrow>
          (case expressionOf callee of
             None \<Rightarrow> Inr col'
           | Some inner \<Rightarrow> applyModifiers name inner col'))"
| "applyModifiers name n col = Inr col"
  by pat_completeness auto

termination
  by (relation "measure (\<lambda>(name, n, col). size n)") (auto elim!: expressionOf.elims)

definition namingConvention :: "string option \<Rightarrow> column \<Rightarrow> column" where
  "namingConvention name col =
     (let c1 = (if name = Some ''createdAt''
                then col\<lparr>col_createDate := True, col_nullable := False\<rparr> else col)
      in if name = Some ''updatedAt'' then c1\<lparr>col_updateDate := True\<rparr> else c1)"

text \<open>
  The descriptor before the modifiers: the type from the name of the root's callee, the
  physical name from the root's first argument and the options of its second. Destructuring
  the arguments of a root that has none throws.
\<close>

definition physicalNameOverride :: "node option \<Rightarrow> string option \<Rightarrow> column \<Rightarrow> column" where
  "physicalNameOverride nameArg name col =
     (case nameArg of
        Some (StringLiteral t) \<Rightarrow> if Some t \<noteq> name then col\<lparr>col_name := Some t\<rparr> else col
      | _ \<Rightarrow> col)"

definition columnOptions :: "(node \<Rightarrow> string) \<Rightarrow> node option \<Rightarrow> column \<Rightarrow> column" where
  "columnOptions getText opts col =
     (case opts of
        Some (ObjectLiteralExpression ps) \<Rightarrow> fold (applyOption getText) ps col
      | _ \<Rightarrow> col)"

definition rootColumn :: "(node \<Rightarrow> string) \<Rightarrow> node \<Rightarrow> string option \<Rightarrow> error + column" where
  "rootColumn getText root name =
     (let col = newColumn\<lparr>col_type :=
                  toType (case expressionOf root of None \<Rightarrow> None | Some e \<Rightarrow> escapedText e)\<rparr>
      in case argumentsOf root of
           Some rargs \<Rightarrow>
             Inr (columnOptions getText (arg1 rargs) (physicalNameOverride (arg0 rargs) name col))
         | None \<Rightarrow> Inl TypeError)"

definition getColumn :: "(node \<Rightarrow> string) \<Rightarrow> node \<Rightarrow> string option \<Rightarrow> error + column" where
  "getColumn getText init name =
     (case init of
        CallExpression callee args \<Rightarrow>
          (case rootColumn getText (chainRoot init) name of
             Inl e \<Rightarrow> Inl e
           | Inr col \<Rightarrow>
               (case applyModifiers name init col of
                  Inl e \<Rightarrow> Inl e
                | Inr col' \<Rightarrow> Inr (namingConvention name col')))
      | _ \<Rightarrow> Inr newColumn)"

section \<open>Tables, indices and relation stubs\<close>

record index =
  ix_name :: "string option"
  ix_columns :: "string list"
  ix_unique :: bool

datatype cardinality = OneToMany | ManyToOne | OneToOne | ManyToMany

record relation =
  fromEntity :: "string read"
  fromVar :: "string option"
  localName :: "string option"
  toEntity :: "string read"
  toVar :: string
  relType :: cardinality
  inverseSide :: "string option"
  origKind :: "string option"
  customName :: "string option"
  onDelete :: "string option"
  onUpdate :: "string option"
  cascade :: bool
  joinColumnName :: "string option"
  isOwner :: bool

record entity =
  tableName :: "string option"
  columns :: "(string \<times> column) list"
  relations :: "relation list"
  indices :: "index list"

record conversion =
  var2entity :: "(string \<times> string) list"
  entity2file :: "(string \<times> string) list"
  entityData :: "(string \<times> entity) list"
  relationStubs :: "relation list"

datatype variableDeclaration = VariableDeclaration node "node option"

datatype statement = VariableStatement "variableDeclaration list" | OtherStatement

record parsedFile =
  fileName :: string
  statements :: "statement list"

text \<open>A loop whose body may throw: the first error ends it.\<close>

fun forEachE :: "('a \<Rightarrow> 's \<Rightarrow> error + 's) \<Rightarrow> 'a list \<Rightarrow> 's \<Rightarrow> error + 's" where
  "forEachE f [] s = Inr s"
| "forEachE f (x # xs) s = (case f x s of Inl e \<Rightarrow> Inl e | Inr s' \<Rightarrow> forEachE f xs s')"

subsection \<open>The columns of a table\<close>

fun addColumn ::
  "(node \<Rightarrow> string) \<Rightarrow> property \<Rightarrow> (string \<times> column) list \<Rightarrow> error + (string \<times> column) list" where
  "addColumn getText OtherObjectElement cols = Inr cols"
| "addColumn getText (PropertyAssignment nm v) cols =
     (case getColumn getText v (escapedText nm) of
        Inl e \<Rightarrow> Inl e
      | Inr c \<Rightarrow> Inr (setProp (keyOf (escapedText nm)) c cols))"

definition tableColumns ::
  "(node \<Rightarrow> string) \<Rightarrow> node option \<Rightarrow> error + (string \<times> column) list" where
  "tableColumns getText colObj =
     (case colObj of
        Some (ObjectLiteralExpression ps) \<Rightarrow> forEachE (addColumn getText) ps []
      | _ \<Rightarrow> Inr [])"

subsection \<open>Composite primary keys and indices\<close>

text \<open>
  The assignment for one member of a composite key marks the column that the table has
  under that name. Without such a column the table stays as it is: the marks go nowhere, or
  to the inherited member that the name reads, where the converter never looks for them.
\<close>

definition assignPrimary :: "string \<Rightarrow> (string \<times> column) list \<Rightarrow> (string \<times> column) list" where
  "assignPrimary colName cols =
     map (\<lambda>(k, c). if k = colName then (k, c\<lparr>col_primary := True, col_nullable := False\<rparr>)
                    else (k, c)) cols"

definition primaryKeyColumn :: "node \<Rightarrow> (string \<times> column) list \<Rightarrow> (string \<times> column) list" where
  "primaryKeyColumn colEl cols =
     (case nameText colEl of
        None \<Rightarrow> cols
      | Some colName \<Rightarrow> if colName \<noteq> [] then assignPrimary colName cols else cols)"

fun primaryKeyProperty :: "property \<Rightarrow> (string \<times> column) list \<Rightarrow> (string \<times> column) list" where
  "primaryKeyProperty (PropertyAssignment nm (ArrayLiteralExpression els)) cols =
     (if escapedText nm = Some ''columns'' then fold primaryKeyColumn els cols else cols)"
| "primaryKeyProperty p cols = cols"

fun onRoot :: "node \<Rightarrow> node" where
  "onRoot (CallExpression (PropertyAccessExpression e n) args) =
     (if n = ''on'' then onRoot e else CallExpression (PropertyAccessExpression e n) args)"
| "onRoot c = c"

text \<open>
  The second walk over the same chain collects a column at every \<open>on\<close> call, starting at
  the outermost call; an \<open>on()\<close> without argument makes the node test throw.
\<close>

fun onColumns :: "node \<Rightarrow> error + string list" where
  "onColumns (CallExpression (PropertyAccessExpression e n) args) =
     (if n = ''on''
      then (case arg0 args of
              None \<Rightarrow> Inl TypeError
            | Some a \<Rightarrow>
                (case onColumns e of
                   Inl err \<Rightarrow> Inl err
                 | Inr cs \<Rightarrow>
                     Inr ((case a of PropertyAccessExpression b m \<Rightarrow> [m] | _ \<Rightarrow> []) @ cs)))
      else Inr [])"
| "onColumns c = Inr []"

definition indexOf :: "node \<Rightarrow> error + index option" where
  "indexOf e =
     (case onRoot e of
        CallExpression (Identifier marker) rargs \<Rightarrow>
          if marker = ''index'' \<or> marker = ''uniqueIndex''
          then (case onColumns e of
                  Inl err \<Rightarrow> Inl err
                | Inr cols \<Rightarrow>
                    Inr (Some \<lparr> ix_name = (case arg0 rargs of None \<Rightarrow> None | Some a \<Rightarrow> textOf a),
                                ix_columns = cols,
                                ix_unique = (marker = ''uniqueIndex'') \<rparr>))
          else Inr None
      | _ \<Rightarrow> Inr None)"

fun tableElement ::
  "node \<Rightarrow> (string \<times> column) list \<times> index list \<Rightarrow> error + (string \<times> column) list \<times> index list" where
  "tableElement (CallExpression callee args) (cols, idxs) =
     (if escapedText callee = Some ''primaryKey''
      then (case arg0 args of
              Some (ObjectLiteralExpression ps) \<Rightarrow> Inr (fold primaryKeyProperty ps cols, idxs)
            | _ \<Rightarrow> Inr (cols, idxs))
      else (case indexOf (CallExpression callee args) of
              Inl err \<Rightarrow> Inl err
            | Inr None \<Rightarrow> Inr (cols, idxs)
            | Inr (Some ix) \<Rightarrow> Inr (cols, idxs @ [ix])))"
| "tableElement e s = Inr s"

definition tableExtras ::
  "node option \<Rightarrow> (string \<times> column) list \<Rightarrow> error + (string \<times> column) list \<times> index list" where
  "tableExtras pkFactory cols =
     (case pkFactory of
        Some (ArrowFunction (ArrayLiteralExpression els)) \<Rightarrow> forEachE tableElement els (cols, [])
      | _ \<Rightarrow> Inr (cols, []))"

section \<open>The passes of the conversion\<close>

definition declarationsOf :: "parsedFile \<Rightarrow> (string \<times> variableDeclaration) list" where
  "declarationsOf f =
     concat (map (\<lambda>st. case st of
                          VariableStatement ds \<Rightarrow> map (\<lambda>d. (fileName f, d)) ds
                        | OtherStatement \<Rightarrow> []) (statements f))"

subsection \<open>Pass 1: the entity registry\<close>

fun register :: "(node \<Rightarrow> string) \<Rightarrow> string \<times> variableDeclaration \<Rightarrow> conversion \<Rightarrow> conversion" where
  "register getText (file, VariableDeclaration nm (Some (CallExpression callee args))) ctx =
     (if getText callee = ''pgTable''
      then (let ent = (case arg0 args of
                         Some (StringLiteral t) \<Rightarrow> snakeToPascal t
                       | _ \<Rightarrow> pascal (escapedText nm))
            in ctx\<lparr> var2entity := setProp (keyOf (escapedText nm)) ent (var2entity ctx),
                    entity2file := setProp ent file (entity2file ctx) \<rparr>)
      else ctx)"
| "register getText d ctx = ctx"

subsection \<open>Pass 2: tables\<close>

text \<open>
  A table declaration makes the entity of its variable when there is none yet under that
  name; else its columns are dropped and only its indices are added. When the name reads an
  inherited member instead of an entity, adding an index to it throws.
\<close>

definition declareTable ::
  "(node \<Rightarrow> string) \<Rightarrow> node \<Rightarrow> node list \<Rightarrow> conversion \<Rightarrow> error + conversion" where
  "declareTable getText nm args ctx =
     (let tableVar = escapedText nm;
          tableName = (case arg0 args of Some (StringLiteral t) \<Rightarrow> Some t | _ \<Rightarrow> None);
          entName = toKey (getProp (var2entity ctx) (keyOf tableVar))
      in case tableColumns getText (arg1 args) of
           Inl e \<Rightarrow> Inl e
         | Inr cols \<Rightarrow>
             (case tableExtras (arg2 args) cols of
                Inl e \<Rightarrow> Inl e
              | Inr (cols', idxs) \<Rightarrow>
                  (case getProp (entityData ctx) entName of
                     Undefined \<Rightarrow>
                       Inr (ctx\<lparr> entityData :=
                         setProp entName
                           \<lparr> tableName = tableName, columns = cols', relations = [],
                             indices = idxs \<rparr> (entityData ctx) \<rparr>)
                   | Value ent \<Rightarrow>
                       Inr (ctx\<lparr> entityData :=
                         setProp entName (ent\<lparr>indices := indices ent @ idxs\<rparr>)
                           (entityData ctx) \<rparr>)
                   | Member k \<Rightarrow> if idxs = [] then Inr ctx else Inl TypeError)))"

subsection \<open>Pass 3: relation stubs\<close>

fun isFieldsProperty :: "property \<Rightarrow> bool" where
  "isFieldsProperty (PropertyAssignment nm v) = (escapedText nm = Some ''fields'' \<and> isArr (Some v))"
| "isFieldsProperty OtherObjectElement = False"

definition hasFields :: "node option \<Rightarrow> bool" where
  "hasFields opts =
     (case opts of Some (ObjectLiteralExpression ps) \<Rightarrow> list_ex isFieldsProperty ps | _ \<Rightarrow> False)"

definition inferRelType :: "string option \<Rightarrow> node option \<Rightarrow> cardinality" where
  "inferRelType kind opts =
     (if kind = Some ''many'' then OneToMany
      else if kind = Some ''one'' then (if hasFields opts then ManyToOne else OneToOne)
      else if kind = Some ''oneToOne'' then OneToOne
      else ManyToOne)"

fun applyRelationOption :: "property \<Rightarrow> relation \<times> string option \<Rightarrow> relation \<times> string option" where
  "applyRelationOption OtherObjectElement s = s"
| "applyRelationOption (PropertyAssignment nm v) (r, fk) =
     (let k = escapedText nm;
          r1 = (case v of
                  StringLiteral t \<Rightarrow>
                    if k = Some ''relationName'' then r\<lparr>customName := Some t\<rparr>
                    else if k = Some ''onDelete'' then r\<lparr>onDelete := Some t\<rparr>
                    else r
                | _ \<Rightarrow> r);
          r2 = (case v of
                  StringLiteral t \<Rightarrow> if k = Some ''onUpdate'' then r1\<lparr>onUpdate := Some t\<rparr> else r1
                | _ \<Rightarrow> r1);
          r3 = (if k = Some ''cascade'' \<and> v = TrueKeyword then r2\<lparr>cascade := True\<rparr> else r2);
          fk' = (case v of
                   ArrayLiteralExpression (PropertyAccessExpression e n # els) \<Rightarrow>
                     if k = Some ''fields'' then Some n else fk
                 | _ \<Rightarrow> fk)
      in (r3, fk'))"

text \<open>
  The columns of an entity, \<open>None\<close> when there is no such entity (an inherited member has no
  columns), and what reading one of them by key gives. A foreign key that is still \<open>null\<close>
  reads the key \<open>null\<close>. The physical name is the \<open>name\<close> of what was read, when that is
  truthy.
\<close>

definition columnsOf :: "(string \<times> entity) list \<Rightarrow> string read \<Rightarrow> (string \<times> column) list option" where
  "columnsOf ed ent = (case getProp ed (toKey ent) of Value d \<Rightarrow> Some (columns d) | _ \<Rightarrow> None)"

definition columnOf :: "(string \<times> entity) list \<Rightarrow> string read \<Rightarrow> string option \<Rightarrow> column read" where
  "columnOf ed ent fk =
     (case columnsOf ed ent of
        None \<Rightarrow> Undefined
      | Some cols \<Rightarrow> getProp cols (case fk of None \<Rightarrow> ''null'' | Some k \<Rightarrow> k))"

definition physicalName :: "column read \<Rightarrow> string option" where
  "physicalName c =
     (case c of
        Value col \<Rightarrow> if truthy (col_name col) then col_name col else None
      | Member k \<Rightarrow> memberName k
      | Undefined \<Rightarrow> None)"

definition discoverForeignKey :: "(string \<times> entity) list \<Rightarrow> relation \<Rightarrow> string option" where
  "discoverForeignKey ed r =
     (case columnsOf ed (toEntity r) of
        None \<Rightarrow> None
      | Some targetCols \<Rightarrow>
          map_option fst
            (find (\<lambda>(colName, col). col_referencesVar col = fromVar r) (ownEntries targetCols)))"

definition inheritFromColumn :: "column read \<Rightarrow> relation \<Rightarrow> relation" where
  "inheritFromColumn c r =
     (case c of
        Value col \<Rightarrow>
          (let r1 = (if truthy (col_onDelete col) \<and> \<not> truthy (onDelete r)
                     then r\<lparr>onDelete := col_onDelete col\<rparr> else r);
               r2 = (if truthy (col_onUpdate col) \<and> \<not> truthy (onUpdate r1)
                     then r1\<lparr>onUpdate := col_onUpdate col\<rparr> else r1)
           in if col_cascade col \<and> \<not> cascade r2 then r2\<lparr>cascade := col_cascade col\<rparr> else r2)
      | _ \<Rightarrow> r)"

definition relationOptions :: "node option \<Rightarrow> relation \<Rightarrow> relation \<times> string option" where
  "relationOptions opts stub =
     (case opts of
        Some (ObjectLiteralExpression ps) \<Rightarrow> fold applyRelationOption ps (stub, None)
      | _ \<Rightarrow> (stub, None))"

definition foreignKey :: "(string \<times> entity) list \<Rightarrow> relation \<Rightarrow> string option \<Rightarrow> string option" where
  "foreignKey ed r fkPropName =
     (if truthy fkPropName then fkPropName
      else (case discoverForeignKey ed r of
              Some colName \<Rightarrow> Some colName
            | None \<Rightarrow> fkPropName))"

definition withJoinColumn :: "(string \<times> entity) list \<Rightarrow> string option \<Rightarrow> relation \<Rightarrow> relation" where
  "withJoinColumn ed fk r =
     (if truthy fk
      then r\<lparr>joinColumnName :=
             (case physicalName (columnOf ed (fromEntity r) fk) of
                Some n \<Rightarrow> Some n
              | None \<Rightarrow>
                  (case physicalName (columnOf ed (toEntity r) fk) of
                     Some n \<Rightarrow> Some n
                   | None \<Rightarrow> Some (toSnake (keyOf fk))))\<rparr>
      else r)"

fun collectRelation :: "string option \<Rightarrow> property \<Rightarrow> conversion \<Rightarrow> conversion" where
  "collectRelation fromVar' (PropertyAssignment nm (CallExpression callee args)) ctx =
     (let kind = escapedText callee;
          targVar = (case arg0 args of None \<Rightarrow> None | Some a \<Rightarrow> escapedText a)
      in if \<not> truthy targVar then ctx
         else
          (let stub = \<lparr> fromEntity = getProp (var2entity ctx) (keyOf fromVar'),
                        fromVar = fromVar',
                        localName = escapedText nm,
                        toEntity = (if truthyRead (getProp (var2entity ctx) (keyOf targVar))
                                    then getProp (var2entity ctx) (keyOf targVar)
                                    else Value (pascal targVar)),
                        toVar = keyOf targVar,
                        relType = inferRelType kind (arg1 args),
                        inverseSide = None,
                        origKind = kind,
                        customName = None, onDelete = None, onUpdate = None, cascade = False,
                        joinColumnName = None, isOwner = False \<rparr>;
               withOptions = relationOptions (arg1 args) stub;
               ed = entityData ctx;
               fk = foreignKey ed (fst withOptions) (snd withOptions);
               r = withJoinColumn ed fk (fst withOptions)
           in ctx\<lparr>relationStubs := relationStubs ctx @
                  [inheritFromColumn (columnOf ed (fromEntity r) fk) r]\<rparr>))"
| "collectRelation fromVar' p ctx = ctx"

definition declareRelations :: "node list \<Rightarrow> conversion \<Rightarrow> error + conversion" where
  "declareRelations args ctx =
     (let fromVar' = (case arg0 args of None \<Rightarrow> None | Some a \<Rightarrow> escapedText a)
      in case arg1 args of
           None \<Rightarrow> Inl TypeError
         | Some (ArrowFunction body) \<Rightarrow>
             (case (case body of ParenthesizedExpression b \<Rightarrow> b | _ \<Rightarrow> body) of
                ObjectLiteralExpression ps \<Rightarrow> Inr (fold (collectRelation fromVar') ps ctx)
              | _ \<Rightarrow> Inr ctx)
         | Some fn \<Rightarrow> Inr ctx)"

fun declare2 ::
  "(node \<Rightarrow> string) \<Rightarrow> string \<times> variableDeclaration \<Rightarrow> conversion \<Rightarrow> error + conversion" where
  "declare2 getText (file, VariableDeclaration nm (Some (CallExpression callee args))) ctx =
     (if escapedText callee = Some ''pgTable'' then declareTable getText nm args ctx
      else if escapedText callee = Some ''relations'' then declareRelations args ctx
      else Inr ctx)"
| "declare2 getText d ctx = Inr ctx"

section \<open>The relation resolver\<close>

text \<open>
  The stubs are objects in one array and the resolver changes them in place; here the array
  is a list and a stub is named by its position. \<open>modify i f\<close> changes the stub at \<open>i\<close>.
\<close>

definition modify :: "nat \<Rightarrow> (relation \<Rightarrow> relation) \<Rightarrow> relation list \<Rightarrow> relation list" where
  "modify i f rs = rs[i := f (rs ! i)]"

definition reverseOf :: "relation \<Rightarrow> relation \<Rightarrow> bool" where
  "reverseOf r1 x \<longleftrightarrow>
     fromEntity x = toEntity r1 \<and> toEntity x = fromEntity r1 \<and> \<not> truthy (inverseSide x)"

fun findIndex :: "('a \<Rightarrow> bool) \<Rightarrow> 'a list \<Rightarrow> nat option" where
  "findIndex P [] = None"
| "findIndex P (x # xs) = (if P x then Some 0 else map_option Suc (findIndex P xs))"

definition refine :: "nat \<Rightarrow> nat \<Rightarrow> relation list \<Rightarrow> relation list" where
  "refine i j rs =
     (if origKind (rs ! i) = Some ''many'' \<and> origKind (rs ! j) = Some ''many''
      then modify i (\<lambda>r. r\<lparr>isOwner := True\<rparr>)
             (modify i (\<lambda>r. r\<lparr>relType := ManyToMany\<rparr>)
               (modify j (\<lambda>r. r\<lparr>relType := ManyToMany\<rparr>) rs))
      else if origKind (rs ! i) = Some ''one'' \<and> origKind (rs ! j) = Some ''one''
      then (let rs' = modify i (\<lambda>r. r\<lparr>relType := OneToOne\<rparr>)
                        (modify j (\<lambda>r. r\<lparr>relType := OneToOne\<rparr>) rs)
            in if truthy (joinColumnName (rs' ! i)) then modify i (\<lambda>r. r\<lparr>isOwner := True\<rparr>) rs'
               else if truthy (joinColumnName (rs' ! j)) then modify j (\<lambda>r. r\<lparr>isOwner := True\<rparr>) rs'
               else rs')
      else rs)"

definition pairStep :: "nat \<Rightarrow> relation list \<Rightarrow> relation list" where
  "pairStep i rs =
     (if truthy (inverseSide (rs ! i)) then rs
      else (case findIndex (reverseOf (rs ! i)) rs of
              None \<Rightarrow> rs
            | Some j \<Rightarrow>
                (let rs1 = modify i (\<lambda>r. r\<lparr>inverseSide := localName (rs ! j)\<rparr>) rs;
                     rs2 = modify j (\<lambda>r. r\<lparr>inverseSide := localName (rs1 ! i)\<rparr>) rs1
                 in refine i j rs2)))"

definition resolve :: "relation list \<Rightarrow> relation list" where
  "resolve rs = fold pairStep [0..<length rs] rs"

subsection \<open>Attaching the relations to their entities\<close>

definition attachRelation :: "relation \<Rightarrow> (string \<times> entity) list \<Rightarrow> error + (string \<times> entity) list" where
  "attachRelation r ed =
     (case getProp ed (toKey (fromEntity r)) of
        Value ent \<Rightarrow>
          Inr (if list_ex (\<lambda>x. localName x = localName r) (relations ent) then ed
               else setProp (toKey (fromEntity r)) (ent\<lparr>relations := relations ent @ [r]\<rparr>) ed)
      | _ \<Rightarrow> Inl TypeError)"

subsection \<open>The entity model of a run\<close>

definition emptyConversion :: conversion where
  "emptyConversion = \<lparr> var2entity = [], entity2file = [], entityData = [], relationStubs = [] \<rparr>"

definition collect :: "(node \<Rightarrow> string) \<Rightarrow> parsedFile list \<Rightarrow> error + conversion" where
  "collect getText filesInput =
     (let decls = concat (map declarationsOf filesInput)
      in forEachE (declare2 getText) decls (fold (register getText) decls emptyConversion))"

definition buildEntities :: "(node \<Rightarrow> string) \<Rightarrow> parsedFile list \<Rightarrow> error + conversion" where
  "buildEntities getText filesInput =
     (case collect getText filesInput of
        Inl e \<Rightarrow> Inl e
      | Inr ctx \<Rightarrow>
          (let stubs = resolve (relationStubs ctx)
           in case forEachE attachRelation stubs (entityData ctx) of
                Inl e \<Rightarrow> Inl e
              | Inr ed \<Rightarrow> Inr (ctx\<lparr> relationStubs := stubs, entityData := ed \<rparr>)))"

section \<open>Emitting the columns of an entity\<close>

definition ORDER :: "string list" where
  "ORDER = [''type'', ''enum'', ''precision'', ''scale'', ''length'', ''name'', ''array'',
            ''primary'', ''generated'', ''unique'', ''nullable'', ''default'', ''createDate'',
            ''updateDate'']"

definition flag :: "bool \<Rightarrow> jsval option" where
  "flag b = (if b then Some (JBool True) else None)"

text \<open>\<open>cfg[k]\<close> for the keys of \<open>ORDER\<close>; \<open>None\<close> is \<open>undefined\<close>.\<close>

definition field :: "string \<Rightarrow> column \<Rightarrow> jsval option" where
  "field k cfg =
     (if k = ''type'' then Some (col_type cfg)
      else if k = ''enum'' then map_option JList (col_enum cfg)
      else if k = ''precision'' then map_option JNum (col_precision cfg)
      else if k = ''scale'' then map_option JNum (col_scale cfg)
      else if k = ''length'' then map_option JNum (col_length cfg)
      else if k = ''name'' then map_option JStr (col_name cfg)
      else if k = ''array'' then flag (col_array cfg)
      else if k = ''primary'' then flag (col_primary cfg)
      else if k = ''generated'' then map_option JStr (col_generated cfg)
      else if k = ''unique'' then flag (col_unique cfg)
      else if k = ''nullable'' then Some (JBool (col_nullable cfg))
      else if k = ''default'' then col_default cfg
      else if k = ''createDate'' then flag (col_createDate cfg)
      else if k = ''updateDate'' then flag (col_updateDate cfg)
      else None)"

fun joinWith :: "string \<Rightarrow> string list \<Rightarrow> string" where
  "joinWith sep [] = []"
| "joinWith sep [x] = x"
| "joinWith sep (x # y # ys) = x @ sep @ joinWith sep (y # ys)"

fun toText :: "jsval \<Rightarrow> string" where
  "toText (JNum t) = t"
| "toText (JStr t) = t"
| "toText (JBool b) = (if b then ''true'' else ''false'')"
| "toText (JList xs) = joinWith '','' xs"
| "toText (JMember k) = memberText k"

text \<open>The test \<open>/^'.*'$/\<close>: a quote at both ends and no line break between them.\<close>

definition isQuoted :: "string \<Rightarrow> bool" where
  "isQuoted v \<longleftrightarrow>
     2 \<le> length v \<and> hd v = CHR 0x27 \<and> last v = CHR 0x27 \<and>
     list_all (\<lambda>c. c \<noteq> CHR 0x0A \<and> c \<noteq> CHR 0x0D) (butlast (tl v))"

definition printColumnField :: "string \<Rightarrow> jsval \<Rightarrow> column \<Rightarrow> string" where
  "printColumnField k v cfg =
     (if k = ''enum''
      then (if col_type cfg = JStr ''enum''
            then ''        enum: ['' @
                 joinWith '', '' (map quoted (case v of JList es \<Rightarrow> es | _ \<Rightarrow> [])) @ ''],''
            else [])
      else (case v of
              JStr t \<Rightarrow>
                if \<not> isQuoted t then ''        '' @ k @ '': '' @ quoted t @ '',''
                else ''        '' @ k @ '': '' @ t @ '',''
            | _ \<Rightarrow> ''        '' @ k @ '': '' @ toText v @ '',''))"

definition fieldLine :: "column \<Rightarrow> string \<Rightarrow> string list" where
  "fieldLine cfg k =
     (if k = ''length'' \<and> col_type cfg = JStr ''enum'' then []
      else (case field k cfg of
              None \<Rightarrow> []
            | Some v \<Rightarrow> (let line = printColumnField k v cfg in if line \<noteq> [] then [line] else [])))"

definition columnLines :: "string \<Rightarrow> column \<Rightarrow> string list" where
  "columnLines col cfg =
     [''      '' @ col @ '': {''] @ concat (map (fieldLine cfg) ORDER) @ [''      },'']"

section \<open>Emitting the files\<close>

definition newline :: string where
  "newline = [CHR 0x0A]"

definition relTypeText :: "cardinality \<Rightarrow> string" where
  "relTypeText t =
     (case t of OneToMany \<Rightarrow> ''one-to-many'' | ManyToOne \<Rightarrow> ''many-to-one''
      | OneToOne \<Rightarrow> ''one-to-one'' | ManyToMany \<Rightarrow> ''many-to-many'')"

definition printRelation :: "relation \<Rightarrow> string" where
  "printRelation r =
     joinWith newline
       ([''      '' @ keyOf (localName r) @ '': {'',
         ''        target: '' @ quoted (toKey (toEntity r)) @ '','',
         ''        type: '' @ quoted (relTypeText (relType r)) @ '',''] @
        (if truthy (inverseSide r)
         then [''        inverseSide: '' @ quoted (keyOf (inverseSide r)) @ '','']
         else []) @
        (if relType r \<noteq> OneToMany \<and> truthy (joinColumnName r)
         then [''        joinColumn: { name: '' @ quoted (keyOf (joinColumnName r)) @ '' },'']
         else []) @
        (if relType r = ManyToMany \<and> isOwner r then [''        joinTable: true,''] else []) @
        (if relType r = ManyToOne \<or> relType r = OneToOne
         then (if truthy (onDelete r)
               then [''        onDelete: '' @ quoted (keyOf (onDelete r)) @ '','']
               else []) @
              (if truthy (onUpdate r)
               then [''        onUpdate: '' @ quoted (keyOf (onUpdate r)) @ '','']
               else [])
         else []) @
        (if cascade r then [''        cascade: true,''] else []) @
        [''      },''])"

definition indexLine :: "index \<Rightarrow> string" where
  "indexLine ix =
     ''      { name: '' @ quoted (keyOf (ix_name ix)) @ '', columns: ['' @
     joinWith '', '' (map quoted (ix_columns ix)) @ '']'' @
     (if ix_unique ix then '', unique: true'' else []) @ '' },''"

definition isSpace :: "char \<Rightarrow> bool" where
  "isSpace c = (let n = of_char c :: nat in n = 32 \<or> (9 \<le> n \<and> n \<le> 13))"

definition trim :: "string \<Rightarrow> string" where
  "trim s = rev (dropWhile isSpace (rev (dropWhile isSpace s)))"

text \<open>The text of one entity: the body of the loop over the entities, before it is filed.\<close>

definition entityText :: "string \<Rightarrow> entity \<Rightarrow> string" where
  "entityText ent d =
     trim (joinWith newline
       ([ent @ '': new EntitySchema({'',
         ''    name: '' @ quoted ent @ '','',
         ''    tableName: '' @
            quoted (case tableName d of None \<Rightarrow> ''null'' | Some t \<Rightarrow> t) @ '','',
         ''    columns: {''] @
        concat (map (\<lambda>(col, cfg). columnLines col cfg) (ownEntries (columns d))) @
        [''    },''] @
        (if relations d \<noteq> []
         then [''    relations: {''] @ map printRelation (relations d) @ [''    },'']
         else []) @
        (if indices d \<noteq> []
         then [''    indices: [''] @ map indexLine (indices d) @ [''    ],'']
         else []) @
        [''  }),'']))"

text \<open>
  The text is filed under the source file that the registry has for the entity. When that
  name reads an inherited member of \<open>fileOutputMap\<close>, there is nothing to push the text to
  and the conversion throws.
\<close>

definition fileEntity ::
  "(string \<times> string) list \<Rightarrow> string \<times> entity \<Rightarrow> (string \<times> string list) list \<Rightarrow>
     error + (string \<times> string list) list" where
  "fileEntity e2f ed fileOutputMap =
     (let tsFile = toKey (getProp e2f (fst ed))
      in case getProp fileOutputMap tsFile of
           Value schemas \<Rightarrow>
             Inr (setProp tsFile (schemas @ [entityText (fst ed) (snd ed)]) fileOutputMap)
         | Undefined \<Rightarrow> Inr (setProp tsFile [entityText (fst ed) (snd ed)] fileOutputMap)
         | Member k \<Rightarrow> Inl TypeError)"

definition JS_DOC_TYPE_MAP :: "(string \<times> string) list" where
  "JS_DOC_TYPE_MAP =
    [(''uuid'', ''string''), (''varchar'', ''string''), (''char'', ''string''),
     (''text'', ''string''), (''boolean'', ''boolean''), (''int'', ''number''),
     (''integer'', ''number''), (''smallint'', ''number''), (''bigint'', ''number''),
     (''numeric'', ''number''), (''decimal'', ''number''), (''float'', ''number''),
     (''double'', ''number''), (''timestamp'', ''Date''), (''timestamptz'', ''Date''),
     (''date'', ''Date''), (''time'', ''Date''), (''json'', ''object''), (''jsonb'', ''object''),
     (''geometry'', ''object''), (''geography'', ''object'')]"

definition jsType :: "column \<Rightarrow> string" where
  "jsType v =
     (case col_enum v of
        Some es \<Rightarrow> quoted (joinWith (quoted '' | '') es)
      | None \<Rightarrow>
          (case getProp JS_DOC_TYPE_MAP (toText (col_type v)) of
             Value t \<Rightarrow> t
           | Member k \<Rightarrow> memberText k
           | Undefined \<Rightarrow> ''any''))"

definition typedefComment :: "string \<times> entity \<Rightarrow> string" where
  "typedefComment ed =
     ''/**'' @ newline @ '' * @typedef {Object} '' @ fst ed @ newline @
     joinWith newline
       (map (\<lambda>(k, v). '' * @property {'' @ jsType v @ ''} '' @ k) (ownEntries (columns (snd ed)))) @
     newline @ '' */''"

definition isWordChar :: "char \<Rightarrow> bool" where
  "isWordChar c \<longleftrightarrow> isLowerAZ c \<or> isUpperAZ c \<or> isDigit c \<or> c = CHR ''_''"

text \<open>The match of \<open>/^(\w+):/\<close> and the replacement of \<open>/,$/\<close>.\<close>

definition leadingName :: "string \<Rightarrow> string option" where
  "leadingName s =
     (let w = takeWhile isWordChar s
      in if w \<noteq> [] \<and> take 1 (dropWhile isWordChar s) = '':'' then Some w else None)"

definition dropTrailingComma :: "string \<Rightarrow> string" where
  "dropTrailingComma s = (if s \<noteq> [] \<and> last s = CHR '','' then butlast s else s)"

definition exportEntry :: "string \<Rightarrow> string" where
  "exportEntry s =
     (case leadingName s of
        Some entityName \<Rightarrow>
          ''  /** @type {typeorm.EntitySchema<'' @ entityName @ ''>} */'' @ newline @ ''  '' @
          dropTrailingComma s
      | None \<Rightarrow> ''  '' @ dropTrailingComma s)"

definition outputName :: "string \<Rightarrow> string" where
  "outputName tsFile =
     (if 3 \<le> length tsFile \<and> drop (length tsFile - 3) tsFile = ''.ts''
      then take (length tsFile - 3) tsFile @ ''.js'' else tsFile)"

definition fileText :: "(string \<times> entity) list \<Rightarrow> string list \<Rightarrow> string" where
  "fileText ed schemas =
     joinWith newline
       ([''const typeorm = require('' @ quoted ''typeorm'' @ '');'',
         ''const { EntitySchema } = typeorm;'',
         ''''] @
        map typedefComment
          (filter (\<lambda>(ent, d). list_ex (hasInfix (''name: '' @ quoted ent)) schemas)
             (ownEntries ed)) @
        ['''',
         ''module.exports = {'',
         joinWith ('','' @ newline) (map exportEntry schemas),
         ''};''])"

definition emitFiles :: "conversion \<Rightarrow> error + (string \<times> string) list" where
  "emitFiles ctx =
     (case forEachE (fileEntity (entity2file ctx)) (ownEntries (entityData ctx)) [] of
        Inl e \<Rightarrow> Inl e
      | Inr fileOutputMap \<Rightarrow>
          Inr (fold (\<lambda>(tsFile, schemas).
                       setProp (outputName tsFile) (fileText (entityData ctx) schemas))
                 (ownEntries fileOutputMap) []))"

text \<open>
  The whole conversion, on parsed files: the entity model is built and then printed; an
  exception in either part ends the conversion.
\<close>

definition convertSchemas ::
  "(node \<Rightarrow> string) \<Rightarrow> parsedFile list \<Rightarrow> error + (string \<times> string) list" where
  "convertSchemas getText filesInput =
     (case buildEntities getText filesInput of
        Inl e \<Rightarrow> Inl e
      | Inr ctx \<Rightarrow> emitFiles ctx)"

section \<open>Notions used to state the properties\<close>

text \<open>
  The methods of the frames that the modifier walk of \<open>getColumn\<close> visits, outermost first:
  a modifier was applied to a column when its name is in this list.
\<close>

function (sequential) appliedMethods :: "node \<Rightarrow> string option list" where
  "appliedMethods (CallExpression callee args) =
     nameText callee #
       (case expressionOf callee of None \<Rightarrow> [] | Some inner \<Rightarrow> appliedMethods inner)"
| "appliedMethods n = []"
  by pat_completeness auto

termination
  by (relation "measure size") (auto elim!: expressionOf.elims)

text \<open>
  The stubs of a run before and after the resolver (none when the run throws).
\<close>

definition collectedStubs :: "(node \<Rightarrow> string) \<Rightarrow> parsedFile list \<Rightarrow> relation list" where
  "collectedStubs getText filesInput =
     (case collect getText filesInput of Inl e \<Rightarrow> [] | Inr ctx \<Rightarrow> relationStubs ctx)"

definition resolvedStubs :: "(node \<Rightarrow> string) \<Rightarrow> parsedFile list \<Rightarrow> relation list" where
  "resolvedStubs getText filesInput =
     (case buildEntities getText filesInput of Inl e \<Rightarrow> [] | Inr ctx \<Rightarrow> relationStubs ctx)"

text \<open>
  The key under which a property of the column object of a table stores its descriptor. A
  later property with the same key replaces the descriptor of an earlier one.
\<close>

fun propertyKey :: "property \<Rightarrow> string option" where
  "propertyKey (PropertyAssignment nm v) = Some (keyOf (escapedText nm))"
| "propertyKey OtherObjectElement = None"

text \<open>
  The members of the composite primary keys of a table: the names that the elements of a
  \<open>columns\<close> array access, in the object passed to a \<open>primaryKey\<close> call, in the array that the
  third argument of the table returns. A column that is a member is marked primary and not
  nullable.
\<close>

definition keyColumnNames :: "node \<Rightarrow> string list" where
  "keyColumnNames colEl =
     (case nameText colEl of None \<Rightarrow> [] | Some colName \<Rightarrow> if colName \<noteq> [] then [colName] else [])"

fun keyPropertyNames :: "property \<Rightarrow> string list" where
  "keyPropertyNames (PropertyAssignment nm (ArrayLiteralExpression els)) =
     (if escapedText nm = Some ''columns'' then concat (map keyColumnNames els) else [])"
| "keyPropertyNames p = []"

fun keyElementNames :: "node \<Rightarrow> string list" where
  "keyElementNames (CallExpression callee args) =
     (if escapedText callee = Some ''primaryKey''
      then (case arg0 args of
              Some (ObjectLiteralExpression ps) \<Rightarrow> concat (map keyPropertyNames ps)
            | _ \<Rightarrow> [])
      else [])"
| "keyElementNames e = []"

definition compositeKeyNames :: "node option \<Rightarrow> string list" where
  "compositeKeyNames pkFactory =
     (case pkFactory of
        Some (ArrowFunction (ArrayLiteralExpression els)) \<Rightarrow> concat (map keyElementNames els)
      | _ \<Rightarrow> [])"

text \<open>
  What the assignment for a member of a composite key makes of a descriptor, and the columns
  of a table after that assignment for every column whose key is in a set.
\<close>

definition markedPrimary :: "column \<Rightarrow> column" where
  "markedPrimary c = c\<lparr>col_primary := True, col_nullable := False\<rparr>"

definition markKeys :: "string set \<Rightarrow> (string \<times> column) list \<Rightarrow> (string \<times> column) list" where
  "markKeys S cols = map (\<lambda>(k, c). (k, if k \<in> S then markedPrimary c else c)) cols"

text \<open>
  An entity of the model is declared by a table declaration of the input: the declaration's
  variable is registered under the entity's name, and the entity's columns are the ones of
  the declaration's column object, with the members of its composite keys marked.
\<close>

definition declaredBy ::
  "(node \<Rightarrow> string) \<Rightarrow> (string \<times> string) list \<Rightarrow> string \<times> variableDeclaration \<Rightarrow>
     string \<Rightarrow> entity \<Rightarrow> bool" where
  "declaredBy g v2e decl ent d \<longleftrightarrow>
     (case decl of
        (fname, VariableDeclaration tbl (Some (CallExpression callee args))) \<Rightarrow>
          escapedText callee = Some ''pgTable'' \<and>
          toKey (getProp v2e (keyOf (escapedText tbl))) = ent \<and>
          (case tableColumns g (arg1 args) of
             Inl e \<Rightarrow> False
           | Inr cols \<Rightarrow> columns d = markKeys (set (compositeKeyNames (arg2 args))) cols)
      | _ \<Rightarrow> False)"

definition allDeclared ::
  "(node \<Rightarrow> string) \<Rightarrow> (string \<times> string) list \<Rightarrow> (string \<times> variableDeclaration) list \<Rightarrow>
     (string \<times> entity) list \<Rightarrow> bool" where
  "allDeclared g v2e decls ed \<longleftrightarrow> (\<forall>(ent, d) \<in> set ed. \<exists>decl \<in> set decls. declaredBy g v2e decl ent d)"

text \<open>
  The source file under which the text of an entity is filed, as the registry has it.
\<close>

definition sourceFile :: "conversion \<Rightarrow> string \<Rightarrow> string" where
  "sourceFile ctx ent = toKey (getProp (entity2file ctx) ent)"

text \<open>One text occurs in another, as the concatenation says it.\<close>

definition occursIn :: "string \<Rightarrow> string \<Rightarrow> bool" where
  "occursIn x y \<longleftrightarrow> (\<exists>a b. y = a @ x @ b)"

text \<open>
  Conditions on the stub array: every stub has a non-empty local name (its property key was
  an identifier); no unpaired stub is an owner; every stub is unpaired and not an owner, as
  the collector leaves them; and a stub has no reverse stub anywhere in the array.
\<close>

definition named :: "relation list \<Rightarrow> bool" where
  "named rs \<longleftrightarrow> (\<forall>r\<in>set rs. truthy (localName r))"

definition unpairedNotOwner :: "relation list \<Rightarrow> bool" where
  "unpairedNotOwner rs \<longleftrightarrow> (\<forall>r\<in>set rs. \<not> truthy (inverseSide r) \<longrightarrow> \<not> isOwner r)"

definition fresh :: "relation list \<Rightarrow> bool" where
  "fresh rs \<longleftrightarrow> (\<forall>r\<in>set rs. inverseSide r = None \<and> \<not> isOwner r)"

definition noReverse :: "relation list \<Rightarrow> nat \<Rightarrow> bool" where
  "noReverse rs k \<longleftrightarrow>
     (\<forall>j<length rs. \<not> (fromEntity (rs ! j) = toEntity (rs ! k) \<and>
                          toEntity (rs ! j) = fromEntity (rs ! k)))"

text \<open>The columns of one entity of a run (none when the run throws).\<close>

definition entityColumns :: "(node \<Rightarrow> string) \<Rightarrow> parsedFile list \<Rightarrow> string \<Rightarrow> (string \<times> column) list" where
  "entityColumns getText filesInput ent =
     (case buildEntities getText filesInput of
        Inl e \<Rightarrow> []
      | Inr ctx \<Rightarrow> (case map_of (entityData ctx) ent of None \<Rightarrow> [] | Some d \<Rightarrow> columns d))"

section \<open>Example inputs\<close>

text \<open>
  The examples are syntax trees of small schema files. The source text of a node is only
  asked of the callee of a top-level call and of unusual enum members; for the examples it
  is the name of an identifier.
\<close>

fun identifierText :: "node \<Rightarrow> string" where
  "identifierText (Identifier s) = s"
| "identifierText n = []"

abbreviation callOf :: "string \<Rightarrow> node list \<Rightarrow> node" where
  "callOf f args \<equiv> CallExpression (Identifier f) args"

abbreviation methodCall :: "node \<Rightarrow> string \<Rightarrow> node list \<Rightarrow> node" where
  "methodCall e m args \<equiv> CallExpression (PropertyAccessExpression e m) args"

abbreviation member :: "string \<Rightarrow> string \<Rightarrow> node" where
  "member a b \<equiv> PropertyAccessExpression (Identifier a) b"

abbreviation keyed :: "string \<Rightarrow> node \<Rightarrow> property" where
  "keyed k v \<equiv> PropertyAssignment (Identifier k) v"

abbreviation constDecl :: "string \<Rightarrow> node \<Rightarrow> statement" where
  "constDecl v e \<equiv> VariableStatement [VariableDeclaration (Identifier v) (Some e)]"

abbreviation returning :: "property list \<Rightarrow> node" where
  "returning ps \<equiv> ArrowFunction (ParenthesizedExpression (ObjectLiteralExpression ps))"

text \<open>
  \<^verbatim>\<open>id: pg.integer("id")\<close>, a builder reached through a namespace;
  \<^verbatim>\<open>price: money("price")\<close>, a type that is not in the table;
  \<^verbatim>\<open>seen: timestamp("seen").default(raw`current_timestamp`)\<close>, a template with another tag.
\<close>

definition namespacedColumn :: node where
  "namespacedColumn = methodCall (Identifier ''pg'') ''integer'' [StringLiteral ''id'']"

definition moneyColumn :: node where
  "moneyColumn = callOf ''money'' [StringLiteral ''price'']"


text \<open>\<^verbatim>\<open>seen: timestamp("seen").default(sql`CURRENT_TIMESTAMP`)\<close>\<close>

definition sqlTaggedDefault :: node where
  "sqlTaggedDefault =
     methodCall (callOf ''timestamp'' [StringLiteral ''seen''])
       ''default'' [TaggedTemplateExpression (Identifier ''sql'') (Some ''CURRENT_TIMESTAMP'')]"

text \<open>\<^verbatim>\<open>uniqueIndex("ab_idx").on(t.a).on(t.b)\<close>\<close>

definition chainedIndex :: node where
  "chainedIndex =
     methodCall (methodCall (callOf ''uniqueIndex'' [StringLiteral ''ab_idx''])
       ''on'' [member ''t'' ''a'']) ''on'' [member ''t'' ''b'']"

text \<open>\<^verbatim>\<open>profile: oneToOne(profiles)\<close> in the relations of \<open>users\<close>.\<close>

definition oneToOneStubs :: "relation list" where
  "oneToOneStubs =
     relationStubs (collectRelation (Some ''users'')
       (keyed ''profile'' (callOf ''oneToOne'' [Identifier ''profiles''])) emptyConversion)"

text \<open>
  \<^verbatim>\<open>
  const memberships = pgTable(
    "memberships",
    { userId: uuid("user_id").notNull(), teamId: uuid("team_id") },
    (t) => [primaryKey({ columns: [t.userId, t.teamId] })]
  );
  \<close>
  in \<^verbatim>\<open>memberships.ts\<close>, and the entity model it gives.
\<close>

definition membershipColumns :: "property list" where
  "membershipColumns =
     [keyed ''userId'' (methodCall (callOf ''uuid'' [StringLiteral ''user_id'']) ''notNull'' []),
      keyed ''teamId'' (callOf ''uuid'' [StringLiteral ''team_id''])]"

definition membershipKey :: node where
  "membershipKey =
     ArrowFunction (ArrayLiteralExpression
       [callOf ''primaryKey''
          [ObjectLiteralExpression
             [keyed ''columns'' (ArrayLiteralExpression [member ''t'' ''userId'', member ''t'' ''teamId''])]]])"

definition membershipsInput :: "parsedFile list" where
  "membershipsInput =
    [\<lparr> fileName = ''memberships.ts'', statements =
       [constDecl ''memberships'' (callOf ''pgTable''
          [StringLiteral ''memberships'', ObjectLiteralExpression membershipColumns,
           membershipKey])] \<rparr>]"

definition userIdColumn :: column where
  "userIdColumn = newColumn\<lparr>col_type := JStr ''uuid'', col_nullable := False,
                              col_name := Some ''user_id'', col_primary := True\<rparr>"

definition teamIdColumn :: column where
  "teamIdColumn = newColumn\<lparr>col_type := JStr ''uuid'', col_nullable := False,
                              col_name := Some ''team_id'', col_primary := True\<rparr>"

definition membershipsEntity :: entity where
  "membershipsEntity =
     \<lparr> tableName = Some ''memberships'',
       columns = [(''userId'', userIdColumn), (''teamId'', teamIdColumn)],
       relations = [], indices = [] \<rparr>"

definition membershipsModel :: conversion where
  "membershipsModel =
     \<lparr> var2entity = [(''memberships'', ''Memberships'')],
       entity2file = [(''Memberships'', ''memberships.ts'')],
       entityData = [(''Memberships'', membershipsEntity)], relationStubs = [] \<rparr>"

text \<open>
  Two files with the same output name, \<^verbatim>\<open>a.ts\<close> and \<^verbatim>\<open>a.js\<close>:
  \<^verbatim>\<open>
  const users = pgTable("users", { id: uuid("id").primaryKey() });

  const posts = pgTable("posts", { id: uuid("id") });
  \<close>
\<close>

definition sameOutputInput :: "parsedFile list" where
  "sameOutputInput =
    [\<lparr> fileName = ''a.ts'', statements =
       [constDecl ''users'' (callOf ''pgTable''
          [StringLiteral ''users'',
           ObjectLiteralExpression
             [keyed ''id'' (methodCall (callOf ''uuid'' [StringLiteral ''id'']) ''primaryKey'' [])]])] \<rparr>,
     \<lparr> fileName = ''a.js'', statements =
       [constDecl ''posts'' (callOf ''pgTable''
          [StringLiteral ''posts'',
           ObjectLiteralExpression [keyed ''id'' (callOf ''uuid'' [StringLiteral ''id''])]])] \<rparr>]"

text \<open>
  \<^verbatim>\<open>
  const users = pgTable("users", { id: uuid("id") });
  const ghostRelations = relations(ghost, ({ one }) => ({ owner: one(users) }));
  \<close>
  No table is declared for \<open>ghost\<close>.
\<close>

definition ghostInput :: "parsedFile list" where
  "ghostInput =
    [\<lparr> fileName = ''schema.ts'', statements =
       [constDecl ''users'' (callOf ''pgTable''
          [StringLiteral ''users'',
           ObjectLiteralExpression [keyed ''id'' (callOf ''uuid'' [StringLiteral ''id''])]]),
        constDecl ''ghostRelations'' (callOf ''relations''
          [Identifier ''ghost'',
           returning [keyed ''owner'' (callOf ''one'' [Identifier ''users''])]])] \<rparr>]"

text \<open>
  \<^verbatim>\<open>
  const users = pgTable("users", { id: uuid("id") });
  const usersRelations = relations(users, ({ one }) => ({ team: one(teams) }));
  \<close>
  No table is declared for \<open>teams\<close>, the target of the relation.
\<close>

definition missingTargetInput :: "parsedFile list" where
  "missingTargetInput =
    [\<lparr> fileName = ''schema.ts'', statements =
       [constDecl ''users'' (callOf ''pgTable''
          [StringLiteral ''users'',
           ObjectLiteralExpression [keyed ''id'' (callOf ''uuid'' [StringLiteral ''id''])]]),
        constDecl ''usersRelations'' (callOf ''relations''
          [Identifier ''users'',
           returning [keyed ''team'' (callOf ''one'' [Identifier ''teams''])]])] \<rparr>]"

text \<open>
  \<^verbatim>\<open>
  const a = pgTable("a", {});
  const b = pgTable("b", {});
  const aRelations = relations(a, ({ many }) => ({ bs: many(b) }));
  const bRelations = relations(b, ({ many }) => ({ "as": many(a), as2: many(a) }));
  \<close>
  The key \<open>"as"\<close> is a string literal, so the stub has no local name.
\<close>

definition quotedKeyInput :: "parsedFile list" where
  "quotedKeyInput =
    [\<lparr> fileName = ''schema.ts'', statements =
       [constDecl ''a'' (callOf ''pgTable'' [StringLiteral ''a'', ObjectLiteralExpression []]),
        constDecl ''b'' (callOf ''pgTable'' [StringLiteral ''b'', ObjectLiteralExpression []]),
        constDecl ''aRelations'' (callOf ''relations''
          [Identifier ''a'', returning [keyed ''bs'' (callOf ''many'' [Identifier ''b''])]]),
        constDecl ''bRelations'' (callOf ''relations''
          [Identifier ''b'',
           returning [PropertyAssignment (StringLiteral ''as'') (callOf ''many'' [Identifier ''a'']),
                      keyed ''as2'' (callOf ''many'' [Identifier ''a''])]])] \<rparr>]"

text \<open>
  \<^verbatim>\<open>
  const categories = pgTable("categories", {
    id: uuid("id"),
    parentId: uuid("parent_id"),
  });
  const categoriesRelations = relations(categories, ({ one, many }) => ({
    parent: one(categories, { fields: [categories.parentId], references: [categories.id] }),
    children: many(categories),
  }));
  \<close>
\<close>

definition selfReferenceInput :: "parsedFile list" where
  "selfReferenceInput =
    [\<lparr> fileName = ''categories.ts'', statements =
       [constDecl ''categories'' (callOf ''pgTable''
          [StringLiteral ''categories'',
           ObjectLiteralExpression
             [keyed ''id'' (callOf ''uuid'' [StringLiteral ''id'']),
              keyed ''parentId'' (callOf ''uuid'' [StringLiteral ''parent_id''])]]),
        constDecl ''categoriesRelations'' (callOf ''relations''
          [Identifier ''categories'',
           returning
             [keyed ''parent'' (callOf ''one''
                [Identifier ''categories'',
                 ObjectLiteralExpression
                   [keyed ''fields'' (ArrayLiteralExpression [member ''categories'' ''parentId'']),
                    keyed ''references'' (ArrayLiteralExpression [member ''categories'' ''id''])]]),
              keyed ''children'' (callOf ''many'' [Identifier ''categories''])]])] \<rparr>]"

text \<open>
  \<^verbatim>\<open>
  const users = pgTable("users", {});
  const usersRelations = relations(users, ({ many }) => ({
    friends: many(users),
    followers: many(users),
  }));
  \<close>
\<close>

definition friendsInput :: "parsedFile list" where
  "friendsInput =
    [\<lparr> fileName = ''users.ts'', statements =
       [constDecl ''users'' (callOf ''pgTable'' [StringLiteral ''users'', ObjectLiteralExpression []]),
        constDecl ''usersRelations'' (callOf ''relations''
          [Identifier ''users'',
           returning [keyed ''friends'' (callOf ''many'' [Identifier ''users'']),
                      keyed ''followers'' (callOf ''many'' [Identifier ''users''])]])] \<rparr>]"

text \<open>
  The first three scenarios of the specification.
  \<^verbatim>\<open>
  const users = pgTable("users", {
    id: uuid("id").primaryKey().defaultRandom(),
    name: varchar("name").notNull(),
    createdAt: timestamp("created_at"),
  });
  \<close>
  Two files, \<^verbatim>\<open>users.ts\<close> and \<^verbatim>\<open>posts.ts\<close>:
  \<^verbatim>\<open>
  const users = pgTable("users", { id: uuid("id") });
  const usersRelations = relations(users, ({ many }) => ({ posts: many(posts) }));

  const posts = pgTable("posts", { id: uuid("id"), authorId: uuid("author_id") });
  const postsRelations = relations(posts, ({ one }) => ({
    author: one(users, { fields: [posts.authorId], references: [users.id] }),
  }));
  \<close>
  Two tables with a to-many relation on each side:
  \<^verbatim>\<open>
  const students = pgTable("students", {});
  const courses = pgTable("courses", {});
  const studentsRelations = relations(students, ({ many }) => ({ courses: many(courses) }));
  const coursesRelations = relations(courses, ({ many }) => ({ students: many(students) }));
  \<close>
\<close>

definition scenario1 :: "parsedFile list" where
  "scenario1 =
    [\<lparr> fileName = ''users.ts'', statements =
       [constDecl ''users'' (callOf ''pgTable''
          [StringLiteral ''users'',
           ObjectLiteralExpression
             [keyed ''id'' (methodCall (methodCall (callOf ''uuid'' [StringLiteral ''id''])
                              ''primaryKey'' []) ''defaultRandom'' []),
              keyed ''name'' (methodCall (callOf ''varchar'' [StringLiteral ''name'']) ''notNull'' []),
              keyed ''createdAt'' (callOf ''timestamp'' [StringLiteral ''created_at''])]])] \<rparr>]"

definition scenario2 :: "parsedFile list" where
  "scenario2 =
    [\<lparr> fileName = ''users.ts'', statements =
       [constDecl ''users'' (callOf ''pgTable''
          [StringLiteral ''users'',
           ObjectLiteralExpression [keyed ''id'' (callOf ''uuid'' [StringLiteral ''id''])]]),
        constDecl ''usersRelations'' (callOf ''relations''
          [Identifier ''users'', returning [keyed ''posts'' (callOf ''many'' [Identifier ''posts''])]])] \<rparr>,
     \<lparr> fileName = ''posts.ts'', statements =
       [constDecl ''posts'' (callOf ''pgTable''
          [StringLiteral ''posts'',
           ObjectLiteralExpression
             [keyed ''id'' (callOf ''uuid'' [StringLiteral ''id'']),
              keyed ''authorId'' (callOf ''uuid'' [StringLiteral ''author_id''])]]),
        constDecl ''postsRelations'' (callOf ''relations''
          [Identifier ''posts'',
           returning
             [keyed ''author'' (callOf ''one''
                [Identifier ''users'',
                 ObjectLiteralExpression
                   [keyed ''fields'' (ArrayLiteralExpression [member ''posts'' ''authorId'']),
                    keyed ''references'' (ArrayLiteralExpression [member ''users'' ''id''])]])]])] \<rparr>]"

definition scenario3 :: "parsedFile list" where
  "scenario3 =
    [\<lparr> fileName = ''schema.ts'', statements =
       [constDecl ''students'' (callOf ''pgTable'' [StringLiteral ''students'', ObjectLiteralExpression []]),
        constDecl ''courses'' (callOf ''pgTable'' [StringLiteral ''courses'', ObjectLiteralExpression []]),
        constDecl ''studentsRelations'' (callOf ''relations''
          [Identifier ''students'', returning [keyed ''courses'' (callOf ''many'' [Identifier ''courses''])]]),
        constDecl ''coursesRelations'' (callOf ''relations''
          [Identifier ''courses'', returning [keyed ''students'' (callOf ''many'' [Identifier ''students''])]])] \<rparr>]"

section \<open>General lemmas\<close>

lemma in_setProp: "(k', v') \<in> set (setProp k v al) \<Longrightarrow> (k', v') = (k, v) \<or> (k', v') \<in> set al"
  by (induction al) (auto split: if_splits)

lemma map_of_setProp: "map_of (setProp k v al) = (map_of al)(k \<mapsto> v)"
  by (induction al) (auto simp: fun_eq_iff)

lemma keys_setProp: "fst ` set (setProp k v al) = insert k (fst ` set al)"
  by (induction al) auto

lemma distinct_setProp: "distinct (map fst al) \<Longrightarrow> distinct (map fst (setProp k v al))"
proof (induction al)
  case Nil
  then show ?case by simp
next
  case (Cons p al)
  show ?case
  proof (cases "fst p = k")
    case True
    with Cons.prems show ?thesis by simp
  next
    case False
    have "fst p \<notin> fst ` set (setProp k v al)"
      using Cons.prems False by (simp add: keys_setProp)
    with Cons False show ?thesis by simp
  qed
qed

lemma in_setProp_distinct:
  assumes "distinct (map fst al)" and "(k', v') \<in> set (setProp k v al)"
  shows "(k' = k \<and> v' = v) \<or> (k' \<noteq> k \<and> (k', v') \<in> set al)"
proof -
  have "map_of (setProp k v al) k' = Some v'"
    using assms distinct_setProp [OF assms(1)] by simp
  then have "((map_of al)(k \<mapsto> v)) k' = Some v'"
    by (simp add: map_of_setProp)
  then show ?thesis
    using assms(1) by (auto split: if_splits)
qed

lemma getProp_Value: "getProp obj k = Value v \<longleftrightarrow> map_of obj k = Some v"
  by (auto simp: getProp_def split: option.splits)

lemma getProp_no_value:
  "getProp obj k = Undefined \<Longrightarrow> map_of obj k = None"
  "getProp obj k = Member m \<Longrightarrow> map_of obj k = None"
  by (auto simp: getProp_def split: option.splits if_splits)

lemma forEachE_invariant:
  assumes "forEachE f xs s = Inr s'" and "P s"
      and "\<And>x a b. x \<in> set xs \<Longrightarrow> f x a = Inr b \<Longrightarrow> P a \<Longrightarrow> P b"
  shows "P s'"
  using assms
proof (induction xs arbitrary: s)
  case Nil
  then show ?case by simp
next
  case (Cons x xs)
  from Cons.prems(1) obtain s1 where s1: "f x s = Inr s1" "forEachE f xs s1 = Inr s'"
    by (auto split: sum.splits)
  have "P s1" using Cons.prems(3) [OF _ s1(1) Cons.prems(2)] by simp
  with s1(2) show ?case using Cons.prems(3) by (intro Cons.IH) auto
qed

lemma fold_invariant:
  assumes "P s" and "\<And>x a. x \<in> set xs \<Longrightarrow> P a \<Longrightarrow> P (f x a)"
  shows "P (fold f xs s)"
  using assms by (induction xs arbitrary: s) auto

section \<open>The column extractor\<close>

subsection \<open>Initializers that are not builder chains\<close>

text \<open>
  Claim C8 (failing input). \<open>getColumn\<close> is not total: for the column
  \<^verbatim>\<open>id: pg.integer("id")\<close> the chain root is the identifier \<open>pg\<close>, which has no
  arguments to destructure, and the call throws a \<open>TypeError\<close> instead of returning a
  descriptor.
\<close>

theorem getColumn_raises_on_namespaced_builder:
  "getColumn getText namespacedColumn (Some ''id'') = Inl TypeError"
  by (simp add: getColumn_def rootColumn_def namespacedColumn_def)

text \<open>
  The other two parts of the claim hold: an initializer that is not a call gives the default
  descriptor, and a root call with an unmapped type name gives type \<open>text\<close>.
\<close>

lemma getColumn_not_a_call:
  assumes "\<forall>callee args. init \<noteq> CallExpression callee args"
  shows "getColumn getText init name = Inr newColumn"
  using assms by (cases init) (simp_all add: getColumn_def)

lemma getColumn_money:
  "getColumn getText moneyColumn (Some ''price'') = Inr newColumn"
  by (simp add: getColumn_def rootColumn_def moneyColumn_def toType_def typeMap_def keyOf_def
        getProp_def inheritedKeys_def arg0_def arg1_def physicalNameOverride_def
        columnOptions_def applyMethod_def namingConvention_def newColumn_def)

subsection \<open>Defaults\<close>




text \<open>
  In a chain that ends \<open>root(...).default(arg)\<close> the frame of \<open>default\<close> is the last one to
  store anything, so the descriptor has exactly the value of that frame.
\<close>

lemma default_of_simple_chain:
  "\<exists>c. getColumn getText (methodCall (callOf ty rargs) ''default'' args) name = Inr c
       \<and> col_default c = defaultValue (arg0 args)"
  by (simp add: getColumn_def rootColumn_def applyMethod_def namingConvention_def Let_def)

subsection \<open>Nullable\<close>

lemma applyOption_keeps:
  "col_nullable (applyOption g p c) = col_nullable c"
  "col_primary (applyOption g p c) = col_primary c"
  by (cases p; simp add: Let_def split: node.splits)+

lemma fold_applyOption_keeps:
  "col_nullable (fold (applyOption g) ps c) = col_nullable c"
  "col_primary (fold (applyOption g) ps c) = col_primary c"
  by (induction ps arbitrary: c; simp add: applyOption_keeps)+

lemma physicalNameOverride_keeps:
  "col_nullable (physicalNameOverride a name c) = col_nullable c"
  "col_primary (physicalNameOverride a name c) = col_primary c"
  by (simp_all add: physicalNameOverride_def split: option.splits node.splits)

lemma columnOptions_keeps:
  "col_nullable (columnOptions g opts c) = col_nullable c"
  "col_primary (columnOptions g opts c) = col_primary c"
  by (simp_all add: columnOptions_def fold_applyOption_keeps split: option.splits node.splits)

lemma applyReferenceOption_keeps:
  "col_nullable (applyReferenceOption p c) = col_nullable c"
  "col_primary (applyReferenceOption p c) = col_primary c"
  by (cases p; simp add: Let_def split: node.splits)+

lemma fold_applyReferenceOption_keeps:
  "col_nullable (fold applyReferenceOption ps c) = col_nullable c"
  "col_primary (fold applyReferenceOption ps c) = col_primary c"
  by (induction ps arbitrary: c; simp add: applyReferenceOption_keeps)+

lemma references_keeps:
  assumes "references args c = Inr c'"
  shows "col_nullable c' = col_nullable c" and "col_primary c' = col_primary c"
  using assms
  by (auto simp: references_def Let_def fold_applyReferenceOption_keeps
        split: option.splits node.splits)

lemma applyMethod_nullable:
  assumes "applyMethod name m args c = Inr c'"
  shows "\<not> col_nullable c \<Longrightarrow> \<not> col_nullable c'"
    and "col_primary c \<longrightarrow> \<not> col_nullable c \<Longrightarrow> col_primary c' \<longrightarrow> \<not> col_nullable c'"
    and "m = Some ''notNull'' \<or> m = Some ''primaryKey'' \<Longrightarrow> \<not> col_nullable c'"
  using assms
  by (auto simp: applyMethod_def split: if_splits dest: references_keeps)

lemma applyModifiers_nullable:
  "applyModifiers name n c = Inr c' \<Longrightarrow>
     (\<not> col_nullable c \<longrightarrow> \<not> col_nullable c') \<and>
     ((col_primary c \<longrightarrow> \<not> col_nullable c) \<longrightarrow> (col_primary c' \<longrightarrow> \<not> col_nullable c')) \<and>
     (Some ''notNull'' \<in> set (appliedMethods n) \<or> Some ''primaryKey'' \<in> set (appliedMethods n)
        \<longrightarrow> \<not> col_nullable c')"
proof (induction name n c arbitrary: c' rule: applyModifiers.induct)
  case (1 name callee args col)
  from "1.prems" obtain c1 where c1: "applyMethod name (nameText callee) args col = Inr c1"
    by (auto split: sum.splits)
  note m = applyMethod_nullable [OF c1]
  show ?case
  proof (cases "expressionOf callee")
    case None
    with "1.prems" c1 have "c' = c1" by simp
    with m None show ?thesis by auto
  next
    case (Some inner)
    with "1.prems" c1 have "applyModifiers name inner c1 = Inr c'" by simp
    from "1.IH" [OF c1 Some this] m Some show ?thesis by auto
  qed
qed simp_all

lemma namingConvention_nullable:
  "\<not> col_nullable c \<Longrightarrow> \<not> col_nullable (namingConvention name c)"
  "col_primary c \<longrightarrow> \<not> col_nullable c \<Longrightarrow>
     col_primary (namingConvention name c) \<longrightarrow> \<not> col_nullable (namingConvention name c)"
  by (simp_all add: namingConvention_def Let_def)

lemma rootColumn_fresh:
  assumes "rootColumn g root name = Inr c"
  shows "\<not> col_primary c"
proof (cases "argumentsOf root")
  case None
  with assms show ?thesis by (simp add: rootColumn_def)
next
  case (Some rargs)
  with assms show ?thesis
    by (auto simp: rootColumn_def Let_def columnOptions_keeps physicalNameOverride_keeps
          newColumn_def)
qed

lemma getColumn_call:
  assumes "getColumn g (CallExpression callee args) name = Inr c"
  obtains c2 c3 where "\<not> col_primary c2"
    and "applyModifiers name (CallExpression callee args) c2 = Inr c3"
    and "c = namingConvention name c3"
proof -
  from assms obtain c2 where
    c2: "rootColumn g (chainRoot (CallExpression callee args)) name = Inr c2"
    by (auto simp: getColumn_def split: sum.splits)
  with assms obtain c3 where
    "applyModifiers name (CallExpression callee args) c2 = Inr c3" "c = namingConvention name c3"
    by (auto simp: getColumn_def split: sum.splits)
  with rootColumn_fresh [OF c2] that show ?thesis by blast
qed

lemma getColumn_nullable:
  assumes "getColumn g init name = Inr c"
  shows "col_primary c \<longrightarrow> \<not> col_nullable c"
    and "Some ''notNull'' \<in> set (appliedMethods init) \<or> Some ''primaryKey'' \<in> set (appliedMethods init)
           \<Longrightarrow> \<not> col_nullable c"
proof -
  show "col_primary c \<longrightarrow> \<not> col_nullable c"
  proof (cases "\<exists>callee args. init = CallExpression callee args")
    case False
    then have "getColumn g init name = Inr newColumn"
      by (cases init) (simp_all add: getColumn_def)
    with assms have "c = newColumn" by simp
    then show ?thesis by (simp add: newColumn_def)
  next
    case True
    then obtain callee args where init: "init = CallExpression callee args" by blast
    from assms [unfolded init] obtain c2 c3 where
      c2: "\<not> col_primary c2" and
      c3: "applyModifiers name init c2 = Inr c3" and c: "c = namingConvention name c3"
      unfolding init by (rule getColumn_call)
    from applyModifiers_nullable [OF c3] c2 have "col_primary c3 \<longrightarrow> \<not> col_nullable c3"
      by simp
    with c show ?thesis by (simp add: namingConvention_nullable)
  qed
  show "\<not> col_nullable c"
    if a: "Some ''notNull'' \<in> set (appliedMethods init) \<or> Some ''primaryKey'' \<in> set (appliedMethods init)"
  proof -
    from a obtain callee args where init: "init = CallExpression callee args"
      by (cases init) auto
    from assms [unfolded init] obtain c2 c3 where
      c3: "applyModifiers name init c2 = Inr c3" and c: "c = namingConvention name c3"
      unfolding init by (rule getColumn_call)
    from applyModifiers_nullable [OF c3] a have "\<not> col_nullable c3" by simp
    with c show ?thesis by (simp add: namingConvention_nullable)
  qed
qed

section \<open>Tables\<close>

subsection \<open>The columns of a table\<close>

text \<open>
  Every column that the loop over the column object leaves under a key is the descriptor
  that \<open>getColumn\<close> returned for the last property with that key.
\<close>

lemma addColumn_distinct:
  "addColumn g p acc = Inr acc' \<Longrightarrow> distinct (map fst acc) \<Longrightarrow> distinct (map fst acc')"
  by (cases p) (auto split: sum.splits simp: distinct_setProp)

lemma addColumns_source:
  assumes "forEachE (addColumn g) ps acc = Inr cols" and "distinct (map fst acc)"
      and "(k, c) \<in> set cols"
  shows "((k, c) \<in> set acc \<and> (\<forall>p\<in>set ps. propertyKey p \<noteq> Some k)) \<or>
         (\<exists>before nm init after.
            ps = before @ PropertyAssignment nm init # after \<and> keyOf (escapedText nm) = k \<and>
            getColumn g init (escapedText nm) = Inr c \<and> (\<forall>p\<in>set after. propertyKey p \<noteq> Some k))"
  using assms
proof (induction ps arbitrary: acc)
  case Nil
  then show ?case by simp
next
  case (Cons p ps)
  from Cons.prems(1) obtain acc1 where
    acc1: "addColumn g p acc = Inr acc1" and rest: "forEachE (addColumn g) ps acc1 = Inr cols"
    by (auto split: sum.splits)
  have d1: "distinct (map fst acc1)"
    using acc1 Cons.prems(2) by (rule addColumn_distinct)
  from Cons.IH [OF rest d1 Cons.prems(3)] show ?case
  proof
    assume later:
      "\<exists>before nm init after.
         ps = before @ PropertyAssignment nm init # after \<and> keyOf (escapedText nm) = k \<and>
         getColumn g init (escapedText nm) = Inr c \<and> (\<forall>p\<in>set after. propertyKey p \<noteq> Some k)"
    then obtain before nm init after where
      h: "ps = before @ PropertyAssignment nm init # after" "keyOf (escapedText nm) = k"
         "getColumn g init (escapedText nm) = Inr c" "\<forall>p\<in>set after. propertyKey p \<noteq> Some k"
      by blast
    from h(1) have "p # ps = (p # before) @ PropertyAssignment nm init # after" by simp
    with h(2,3,4) show ?thesis by blast
  next
    assume here: "(k, c) \<in> set acc1 \<and> (\<forall>p\<in>set ps. propertyKey p \<noteq> Some k)"
    show ?thesis
    proof (cases p)
      case OtherObjectElement
      with acc1 here show ?thesis by auto
    next
      case (PropertyAssignment nm v)
      with acc1 obtain c1 where
        c1: "getColumn g v (escapedText nm) = Inr c1" and
        a1: "acc1 = setProp (keyOf (escapedText nm)) c1 acc"
        by (auto split: sum.splits)
      from in_setProp_distinct [OF Cons.prems(2)] here a1
      have "(k = keyOf (escapedText nm) \<and> c = c1) \<or>
            (k \<noteq> keyOf (escapedText nm) \<and> (k, c) \<in> set acc)"
        by blast
      then show ?thesis
      proof
        assume new: "k = keyOf (escapedText nm) \<and> c = c1"
        have "p # ps = [] @ PropertyAssignment nm v # ps"
          using PropertyAssignment by simp
        with new c1 here show ?thesis by blast
      next
        assume "k \<noteq> keyOf (escapedText nm) \<and> (k, c) \<in> set acc"
        with here PropertyAssignment show ?thesis by auto
      qed
    qed
  qed
qed

lemma tableColumns_source:
  assumes "tableColumns g colObj = Inr cols" and "(k, c) \<in> set cols"
  shows "\<exists>before nm init after.
           colObj = Some (ObjectLiteralExpression (before @ PropertyAssignment nm init # after)) \<and>
           keyOf (escapedText nm) = k \<and> getColumn g init (escapedText nm) = Inr c \<and>
           (\<forall>p\<in>set after. propertyKey p \<noteq> Some k)"
proof (cases "\<exists>ps. colObj = Some (ObjectLiteralExpression ps)")
  case True
  then obtain ps where ps: "colObj = Some (ObjectLiteralExpression ps)" by blast
  with assms(1) have "forEachE (addColumn g) ps [] = Inr cols"
    by (simp add: tableColumns_def)
  from addColumns_source [OF this _ assms(2)] ps show ?thesis by auto
next
  case False
  with assms(1) have "cols = []"
    by (auto simp: tableColumns_def split: option.splits node.splits)
  with assms(2) show ?thesis by simp
qed

subsection \<open>Composite primary keys\<close>

text \<open>
  The third argument of a table changes the columns in one way only: the members of its
  composite primary keys are marked primary and not nullable.
\<close>

lemma markKeys_empty [simp]: "markKeys {} cols = cols"
  by (induction cols) (auto simp: markKeys_def)

lemma assignPrimary_markKeys:
  "assignPrimary n (markKeys S cols) = markKeys (insert n S) cols"
  by (induction cols) (auto simp: assignPrimary_def markKeys_def markedPrimary_def)

lemma markKeys_cong: "S = T \<Longrightarrow> markKeys S cols = markKeys T cols"
  by simp

lemma primaryKeyColumn_markKeys:
  "primaryKeyColumn el (markKeys S cols) = markKeys (S \<union> set (keyColumnNames el)) cols"
proof (cases "nameText el")
  case None
  then show ?thesis by (simp add: primaryKeyColumn_def keyColumnNames_def)
next
  case (Some n)
  then show ?thesis
    by (cases "n = []") (simp_all add: primaryKeyColumn_def keyColumnNames_def assignPrimary_markKeys)
qed

lemma fold_primaryKeyColumn_markKeys:
  "fold primaryKeyColumn els (markKeys S cols) =
     markKeys (S \<union> set (concat (map keyColumnNames els))) cols"
proof (induction els arbitrary: S)
  case Nil
  then show ?case by simp
next
  case (Cons el els)
  have "fold primaryKeyColumn (el # els) (markKeys S cols) =
          markKeys ((S \<union> set (keyColumnNames el)) \<union> set (concat (map keyColumnNames els))) cols"
    by (simp only: fold_simps primaryKeyColumn_markKeys Cons.IH)
  also have "\<dots> = markKeys (S \<union> set (concat (map keyColumnNames (el # els)))) cols"
    by (rule markKeys_cong) auto
  finally show ?case .
qed

lemma primaryKeyProperty_markKeys:
  "primaryKeyProperty p (markKeys S cols) = markKeys (S \<union> set (keyPropertyNames p)) cols"
proof (cases p)
  case (PropertyAssignment nm v)
  show ?thesis
  proof (cases v)
    case (ArrayLiteralExpression els)
    show ?thesis
    proof (cases "escapedText nm = Some ''columns''")
      case True
      with PropertyAssignment ArrayLiteralExpression show ?thesis
        by (simp only: primaryKeyProperty.simps keyPropertyNames.simps if_True
              fold_primaryKeyColumn_markKeys refl)
    next
      case False
      with PropertyAssignment ArrayLiteralExpression show ?thesis by simp
    qed
  qed (simp_all add: PropertyAssignment)
qed simp

lemma fold_primaryKeyProperty_markKeys:
  "fold primaryKeyProperty ps (markKeys S cols) =
     markKeys (S \<union> set (concat (map keyPropertyNames ps))) cols"
proof (induction ps arbitrary: S)
  case Nil
  then show ?case by simp
next
  case (Cons p ps)
  have "fold primaryKeyProperty (p # ps) (markKeys S cols) =
          markKeys ((S \<union> set (keyPropertyNames p)) \<union> set (concat (map keyPropertyNames ps))) cols"
    by (simp only: fold_simps primaryKeyProperty_markKeys Cons.IH)
  also have "\<dots> = markKeys (S \<union> set (concat (map keyPropertyNames (p # ps)))) cols"
    by (rule markKeys_cong) auto
  finally show ?case .
qed

lemma tableElement_markKeys:
  assumes "tableElement e (markKeys S cols, idxs) = Inr (cols', idxs')"
  shows "cols' = markKeys (S \<union> set (keyElementNames e)) cols"
proof (cases e)
  case (CallExpression callee args)
  show ?thesis
  proof (cases "escapedText callee = Some ''primaryKey''")
    case True
    show ?thesis
    proof (cases "\<exists>ps. arg0 args = Some (ObjectLiteralExpression ps)")
      case True
      then obtain ps where ps: "arg0 args = Some (ObjectLiteralExpression ps)" by blast
      with assms CallExpression \<open>escapedText callee = Some ''primaryKey''\<close>
      have "cols' = fold primaryKeyProperty ps (markKeys S cols)" by simp
      also have "\<dots> = markKeys (S \<union> set (concat (map keyPropertyNames ps))) cols"
        by (rule fold_primaryKeyProperty_markKeys)
      finally show ?thesis
        using ps CallExpression \<open>escapedText callee = Some ''primaryKey''\<close> by simp
    next
      case False
      with assms CallExpression \<open>escapedText callee = Some ''primaryKey''\<close>
      have "cols' = markKeys S cols" "keyElementNames e = []"
        by (auto split: option.splits node.splits)
      then show ?thesis by simp
    qed
  next
    case False
    with assms CallExpression show ?thesis
      by (auto split: sum.splits option.splits)
  qed
qed (use assms in simp_all)

lemma tableElements_markKeys:
  "forEachE tableElement els (markKeys S cols, idxs) = Inr (cols', idxs') \<Longrightarrow>
     cols' = markKeys (S \<union> set (concat (map keyElementNames els))) cols"
proof (induction els arbitrary: S idxs)
  case Nil
  then show ?case by simp
next
  case (Cons e els)
  from Cons.prems obtain cols1 idxs1 where
    step: "tableElement e (markKeys S cols, idxs) = Inr (cols1, idxs1)" and
    rest: "forEachE tableElement els (cols1, idxs1) = Inr (cols', idxs')"
    by (auto split: sum.splits)
  from tableElement_markKeys [OF step] have
    "cols1 = markKeys (S \<union> set (keyElementNames e)) cols" .
  with rest Cons.IH [of "S \<union> set (keyElementNames e)" idxs1] have
    "cols' = markKeys ((S \<union> set (keyElementNames e)) \<union> set (concat (map keyElementNames els))) cols"
    by simp
  also have "\<dots> = markKeys (S \<union> set (concat (map keyElementNames (e # els)))) cols"
    by (rule markKeys_cong) auto
  finally show ?case .
qed

lemma tableExtras_markKeys:
  assumes "tableExtras pk cols = Inr (cols', idxs)"
  shows "cols' = markKeys (set (compositeKeyNames pk)) cols"
proof (cases "\<exists>els. pk = Some (ArrowFunction (ArrayLiteralExpression els))")
  case True
  then obtain els where pk: "pk = Some (ArrowFunction (ArrayLiteralExpression els))" by blast
  with assms have "forEachE tableElement els (markKeys {} cols, []) = Inr (cols', idxs)"
    by (simp add: tableExtras_def)
  from tableElements_markKeys [OF this] pk show ?thesis
    by (simp add: compositeKeyNames_def)
next
  case False
  with assms have "cols' = cols" "compositeKeyNames pk = []"
    by (auto simp: tableExtras_def compositeKeyNames_def split: option.splits node.splits)
  then show ?thesis by simp
qed

lemma in_markKeys:
  "(k, c) \<in> set (markKeys S cols) \<Longrightarrow>
     \<exists>c0. (k, c0) \<in> set cols \<and> c = (if k \<in> S then markedPrimary c0 else c0)"
  by (auto simp: markKeys_def)

subsection \<open>Index columns\<close>

text \<open>
  Claim C3 (failing input). For \<^verbatim>\<open>uniqueIndex("ab_idx").on(t.a).on(t.b)\<close> in the third
  argument of a table, the stored descriptor is unique and named as declared, but its columns
  are \<open>b\<close> before \<open>a\<close>: the walk starts at the outermost \<open>on\<close> call and appends as it goes, so
  the declaration order is reversed.
\<close>

theorem chained_index_columns_reversed:
  "tableExtras (Some (ArrowFunction (ArrayLiteralExpression [chainedIndex]))) cols =
     Inr (cols, [\<lparr> ix_name = Some ''ab_idx'', ix_columns = [''b'', ''a''], ix_unique = True \<rparr>])"
  by (simp add: tableExtras_def chainedIndex_def indexOf_def arg0_def)

lemma index_unique_iff_marker:
  "indexOf e = Inr (Some ix) \<Longrightarrow>
     ix_unique ix \<longleftrightarrow> (\<exists>rargs. onRoot e = CallExpression (Identifier ''uniqueIndex'') rargs)"
  by (auto simp: indexOf_def split: node.splits if_splits sum.splits)

section \<open>The relation collector\<close>

lemma applyRelationOption_keeps:
  "relType (fst (applyRelationOption p s)) = relType (fst s)"
  "origKind (fst (applyRelationOption p s)) = origKind (fst s)"
  by (cases p; cases s; auto simp: Let_def split: node.splits list.splits)+

lemma fold_applyRelationOption_keeps:
  "relType (fst (fold applyRelationOption ps s)) = relType (fst s)"
  "origKind (fst (fold applyRelationOption ps s)) = origKind (fst s)"
  by (induction ps arbitrary: s; simp add: applyRelationOption_keeps)+

lemma relationOptions_keeps:
  "relType (fst (relationOptions opts r)) = relType r"
  "origKind (fst (relationOptions opts r)) = origKind r"
  by (simp_all add: relationOptions_def fold_applyRelationOption_keeps
        split: option.splits node.splits)

lemma withJoinColumn_keeps:
  "relType (withJoinColumn ed fk r) = relType r"
  "origKind (withJoinColumn ed fk r) = origKind r"
  by (simp_all add: withJoinColumn_def)

lemma inheritFromColumn_keeps:
  "relType (inheritFromColumn c r) = relType r"
  "origKind (inheritFromColumn c r) = origKind r"
  by (simp_all add: inheritFromColumn_def Let_def split: read.splits)

lemma hasFields_iff:
  "hasFields opts \<longleftrightarrow>
     (\<exists>ps nm es. opts = Some (ObjectLiteralExpression ps) \<and>
        PropertyAssignment nm (ArrayLiteralExpression es) \<in> set ps \<and>
        escapedText nm = Some ''fields'')"
proof (cases opts)
  case None
  then show ?thesis by (simp add: hasFields_def)
next
  case (Some n)
  have fp: "isFieldsProperty p \<longleftrightarrow>
    (\<exists>nm es. p = PropertyAssignment nm (ArrayLiteralExpression es) \<and> escapedText nm = Some ''fields'')" for p
  proof (cases p)
    case (PropertyAssignment nm v)
    then show ?thesis by (cases v) auto
  qed simp
  show ?thesis
  proof (cases n)
    case (ObjectLiteralExpression ps)
    with Some show ?thesis
      by (auto simp: hasFields_def list_ex_iff fp)
  qed (simp_all add: Some hasFields_def)
qed

text \<open>
  Claim C2 (counterexample). The marker \<open>oneToOne\<close> is neither \<open>many\<close> nor \<open>one\<close>, and the
  stub collected for \<^verbatim>\<open>profile: oneToOne(profiles)\<close> is one-to-one, not many-to-one.
\<close>

theorem oneToOne_marker_counterexample:
  "map origKind oneToOneStubs = [Some ''oneToOne''] \<and> map relType oneToOneStubs = [OneToOne]"
  by code_simp

text \<open>
  Claim C2 (amended). Every relation-builder call whose first argument is an identifier is
  collected as one stub, and the stub's relation type before pairing is: one-to-many for the
  marker \<open>many\<close>; for the marker \<open>one\<close>, many-to-one when the options object has a property
  \<open>fields\<close> whose value is an array literal and one-to-one otherwise; one-to-one for the
  marker \<open>oneToOne\<close>; and many-to-one for every other callee.
\<close>

theorem collected_relation_type:
  assumes "arg0 args = Some (Identifier targ)" and "targ \<noteq> []"
  shows "\<exists>r. relationStubs (collectRelation fv (PropertyAssignment nm (CallExpression callee args)) ctx)
               = relationStubs ctx @ [r]
           \<and> origKind r = escapedText callee
           \<and> (escapedText callee = Some ''many'' \<longrightarrow> relType r = OneToMany)
           \<and> (escapedText callee = Some ''one'' \<longrightarrow>
                relType r =
                  (if \<exists>ps k es. arg1 args = Some (ObjectLiteralExpression ps) \<and>
                        PropertyAssignment k (ArrayLiteralExpression es) \<in> set ps \<and>
                        escapedText k = Some ''fields''
                   then ManyToOne else OneToOne))
           \<and> (escapedText callee = Some ''oneToOne'' \<longrightarrow> relType r = OneToOne)
           \<and> (escapedText callee \<notin> {Some ''many'', Some ''one'', Some ''oneToOne''} \<longrightarrow>
                relType r = ManyToOne)"
proof -
  have t: "truthy (Some targ)"
    using assms(2) by (simp add: truthy_def)
  have "inferRelType (Some ''one'') (arg1 args) =
          (if \<exists>ps k es. arg1 args = Some (ObjectLiteralExpression ps) \<and>
                PropertyAssignment k (ArrayLiteralExpression es) \<in> set ps \<and>
                escapedText k = Some ''fields''
           then ManyToOne else OneToOne)"
    unfolding inferRelType_def hasFields_iff by simp
  then show ?thesis
    using t
    by (simp add: assms(1) Let_def inheritFromColumn_keeps withJoinColumn_keeps
          relationOptions_keeps)
       (auto simp: inferRelType_def)
qed

theorem collected_relation_type_witness:
  "\<exists>r. relationStubs (collectRelation (Some ''posts'')
          (keyed ''author'' (callOf ''one''
             [Identifier ''users'',
              ObjectLiteralExpression
                [keyed ''fields'' (ArrayLiteralExpression [member ''posts'' ''authorId''])]]))
          emptyConversion) = [r]
       \<and> origKind r = Some ''one'' \<and> relType r = ManyToOne"
proof -
  have "\<exists>ps k es. arg1 [Identifier ''users'',
              ObjectLiteralExpression
                [keyed ''fields'' (ArrayLiteralExpression [member ''posts'' ''authorId''])]]
            = Some (ObjectLiteralExpression ps) \<and>
          PropertyAssignment k (ArrayLiteralExpression es) \<in> set ps \<and>
          escapedText k = Some ''fields''"
    by (simp add: arg1_def)
  then show ?thesis
    using collected_relation_type [of "[Identifier ''users'',
              ObjectLiteralExpression
                [keyed ''fields'' (ArrayLiteralExpression [member ''posts'' ''authorId''])]]"
            "''users''" "Some ''posts''" "Identifier ''author''" "Identifier ''one''" emptyConversion]
    by (simp add: arg0_def emptyConversion_def)
qed

section \<open>The relation resolver\<close>

lemma length_modify [simp]: "length (modify i f rs) = length rs"
  by (simp add: modify_def)

lemma nth_modify:
  "k < length rs \<Longrightarrow> modify i f rs ! k = (if k = i then f (rs ! k) else rs ! k)"
  by (simp add: modify_def)

lemma length_refine [simp]: "length (refine i j rs) = length rs"
  by (simp add: refine_def Let_def)

lemma length_pairStep [simp]: "length (pairStep i rs) = length rs"
  by (simp add: pairStep_def Let_def split: option.splits)

lemma length_fold_pairStep [simp]: "length (fold pairStep js rs) = length rs"
  by (induction js arbitrary: rs) simp_all

lemma findIndex_Some:
  "findIndex P xs = Some j \<Longrightarrow> j < length xs \<and> P (xs ! j) \<and> (\<forall>k<j. \<not> P (xs ! k))"
proof (induction xs arbitrary: j)
  case Nil
  then show ?case by simp
next
  case (Cons x xs)
  show ?case
  proof (cases "P x")
    case True
    with Cons.prems show ?thesis by simp
  next
    case False
    with Cons.prems obtain j' where j': "findIndex P xs = Some j'" "j = Suc j'"
      by auto
    from Cons.IH [OF j'(1)] False j'(2) show ?thesis
      by (auto simp: less_Suc_eq_0_disj)
  qed
qed

lemma findIndex_first:
  "i < length xs \<Longrightarrow> P (xs ! i) \<Longrightarrow> \<forall>k<i. \<not> P (xs ! k) \<Longrightarrow> findIndex P xs = Some i"
proof (induction xs arbitrary: i)
  case Nil
  then show ?case by simp
next
  case (Cons x xs)
  show ?case
  proof (cases i)
    case 0
    with Cons.prems show ?thesis by simp
  next
    case (Suc i')
    with Cons.prems have "\<not> P x" by auto
    moreover have "findIndex P xs = Some i'"
      using Cons.prems Suc by (intro Cons.IH) auto
    ultimately show ?thesis using Suc by simp
  qed
qed

lemma refine_other:
  "k < length rs \<Longrightarrow> k \<noteq> i \<Longrightarrow> k \<noteq> j \<Longrightarrow> refine i j rs ! k = rs ! k"
  by (simp add: refine_def Let_def nth_modify)

text \<open>A stub with an inverse side is never touched again.\<close>

lemma pairStep_frozen:
  assumes "truthy (inverseSide (rs ! k))" and "k < length rs"
  shows "pairStep j rs ! k = rs ! k"
proof (cases "truthy (inverseSide (rs ! j))")
  case True
  then show ?thesis by (simp add: pairStep_def)
next
  case False
  with assms have kj: "k \<noteq> j" by auto
  show ?thesis
  proof (cases "findIndex (reverseOf (rs ! j)) rs")
    case None
    with False show ?thesis by (simp add: pairStep_def)
  next
    case (Some m)
    from findIndex_Some [OF Some] have "\<not> truthy (inverseSide (rs ! m))"
      by (simp add: reverseOf_def)
    with assms have km: "k \<noteq> m" by auto
    show ?thesis
      using False Some kj km assms(2)
      by (simp add: pairStep_def Let_def refine_other nth_modify)
  qed
qed

lemma fold_pairStep_frozen:
  "truthy (inverseSide (rs ! k)) \<Longrightarrow> k < length rs \<Longrightarrow> fold pairStep js rs ! k = rs ! k"
proof (induction js arbitrary: rs)
  case Nil
  then show ?case by simp
next
  case (Cons j js)
  have "fold pairStep js (pairStep j rs) ! k = pairStep j rs ! k"
    using Cons.prems by (intro Cons.IH) (simp_all add: pairStep_frozen)
  then show ?case using Cons.prems by (simp add: pairStep_frozen)
qed

lemma resolve_split:
  assumes "i < length rs"
  shows "resolve rs = fold pairStep [Suc i..<length rs] (pairStep i (fold pairStep [0..<i] rs))"
proof -
  have "[0..<length rs] = [0..<i] @ [i..<length rs]"
    using assms upt_add_eq_append [of 0 i "length rs - i"] by simp
  also have "[i..<length rs] = i # [Suc i..<length rs]"
    using assms by (simp add: upt_conv_Cons)
  finally show ?thesis by (simp add: resolve_def)
qed

lemma pairStep_self:
  assumes i: "i < length rs"
      and self: "fromEntity (rs ! i) = toEntity (rs ! i)"
      and unpaired: "\<not> truthy (inverseSide (rs ! i))"
      and first: "\<forall>k<i. \<not> reverseOf (rs ! i) (rs ! k)"
  shows "inverseSide (pairStep i rs ! i) = localName (rs ! i)"
    and "origKind (rs ! i) = Some ''many'' \<Longrightarrow>
           relType (pairStep i rs ! i) = ManyToMany \<and> isOwner (pairStep i rs ! i)"
proof -
  have "reverseOf (rs ! i) (rs ! i)"
    using self unpaired by (simp add: reverseOf_def)
  with i first have f: "findIndex (reverseOf (rs ! i)) rs = Some i"
    by (intro findIndex_first) auto
  show "inverseSide (pairStep i rs ! i) = localName (rs ! i)"
    using i unpaired f by (simp add: pairStep_def Let_def refine_def nth_modify)
  show "relType (pairStep i rs ! i) = ManyToMany \<and> isOwner (pairStep i rs ! i)"
    if "origKind (rs ! i) = Some ''many''"
    using i unpaired f that by (simp add: pairStep_def Let_def refine_def nth_modify)
qed

lemma modify_keeps:
  assumes "\<And>r. h (f r) = h r" and "k < length rs"
  shows "h (modify i f rs ! k) = h (rs ! k)"
  using assms by (simp add: nth_modify)

lemma refine_keeps:
  assumes "\<And>r b. h (r\<lparr>isOwner := b\<rparr>) = h r" and "\<And>r t. h (r\<lparr>relType := t\<rparr>) = h r"
      and "k < length rs"
  shows "h (refine i j rs ! k) = h (rs ! k)"
  using assms by (simp add: refine_def Let_def modify_keeps)

lemma pairStep_keeps:
  assumes "\<And>r b. h (r\<lparr>isOwner := b\<rparr>) = h r" and "\<And>r t. h (r\<lparr>relType := t\<rparr>) = h r"
      and "\<And>r s. h (r\<lparr>inverseSide := s\<rparr>) = h r" and "k < length rs"
  shows "h (pairStep i rs ! k) = h (rs ! k)"
  using assms by (simp add: pairStep_def Let_def refine_keeps modify_keeps split: option.splits)

lemma pairStep_entities:
  assumes "k < length rs"
  shows "fromEntity (pairStep i rs ! k) = fromEntity (rs ! k)"
    and "toEntity (pairStep i rs ! k) = toEntity (rs ! k)"
    and "localName (pairStep i rs ! k) = localName (rs ! k)"
    and "origKind (pairStep i rs ! k) = origKind (rs ! k)"
    and "joinColumnName (pairStep i rs ! k) = joinColumnName (rs ! k)"
  using assms by (simp_all add: pairStep_keeps)

text \<open>A stub without any reverse stub in the array is left as it is.\<close>

lemma pairStep_noReverse:
  assumes "k < length rs" and "i < length rs" and "noReverse rs k"
  shows "pairStep i rs ! k = rs ! k" and "noReverse (pairStep i rs) k"
proof -
  show "pairStep i rs ! k = rs ! k"
  proof (cases "truthy (inverseSide (rs ! i))")
    case True
    then show ?thesis by (simp add: pairStep_def)
  next
    case False
    show ?thesis
    proof (cases "findIndex (reverseOf (rs ! i)) rs")
      case None
      with False show ?thesis by (simp add: pairStep_def)
    next
      case (Some m)
      from findIndex_Some [OF Some] have m: "m < length rs" "reverseOf (rs ! i) (rs ! m)"
        by simp_all
      have "k \<noteq> i"
        using m assms(3) by (auto simp: reverseOf_def noReverse_def)
      moreover have "k \<noteq> m"
        using m assms(2,3) by (auto simp: reverseOf_def noReverse_def)
      ultimately show ?thesis
        using False Some assms(1)
        by (simp add: pairStep_def Let_def refine_other nth_modify)
    qed
  qed
  show "noReverse (pairStep i rs) k"
    using assms(1,3) by (simp add: noReverse_def pairStep_entities)
qed

lemma fold_pairStep_noReverse:
  assumes "k < length rs" and "\<forall>i\<in>set js. i < length rs" and "noReverse rs k"
  shows "fold pairStep js rs ! k = rs ! k"
  using assms
proof (induction js arbitrary: rs)
  case Nil
  then show ?case by simp
next
  case (Cons i js)
  have i: "i < length rs" using Cons.prems(2) by simp
  note step = pairStep_noReverse [OF Cons.prems(1) i Cons.prems(3)]
  have "fold pairStep js (pairStep i rs) ! k = pairStep i rs ! k"
    using Cons.prems step(2) by (intro Cons.IH) simp_all
  with step(1) show ?case by simp
qed

lemma resolve_without_reverse:
  assumes "k < length rs" and "noReverse rs k"
  shows "resolve rs ! k = rs ! k"
  unfolding resolve_def using assms by (intro fold_pairStep_noReverse) simp_all


text \<open>A self-referential stub is never chosen as the partner of an earlier stub.\<close>

lemma pairStep_self_untouched:
  assumes "i < length rs" and "k < i"
      and "fromEntity (rs ! i) = toEntity (rs ! i)"
  shows "pairStep k rs ! i = rs ! i"
proof (cases "truthy (inverseSide (rs ! k))")
  case True
  then show ?thesis by (simp add: pairStep_def)
next
  case False
  show ?thesis
  proof (cases "findIndex (reverseOf (rs ! k)) rs")
    case None
    with False show ?thesis by (simp add: pairStep_def)
  next
    case (Some m)
    from findIndex_Some [OF Some] have
      m: "m < length rs" "reverseOf (rs ! k) (rs ! m)" "\<forall>k'<m. \<not> reverseOf (rs ! k) (rs ! k')"
      by simp_all
    have "m \<noteq> i"
    proof
      assume "m = i"
      with m(2) assms(3) have "reverseOf (rs ! k) (rs ! k)"
        using False by (auto simp: reverseOf_def)
      with m(3) \<open>m = i\<close> assms(2) show False by simp
    qed
    with False Some assms(1,2) show ?thesis
      by (simp add: pairStep_def Let_def refine_other nth_modify)
  qed
qed

lemma fold_pairStep_self_untouched:
  assumes "i < length rs" and "n \<le> i"
      and "fromEntity (rs ! i) = toEntity (rs ! i)"
  shows "fold pairStep [0..<n] rs ! i = rs ! i"
  using assms(2)
proof (induction n)
  case 0
  then show ?case by simp
next
  case (Suc n)
  then have IH: "fold pairStep [0..<n] rs ! i = rs ! i" by simp
  have "pairStep n (fold pairStep [0..<n] rs) ! i = fold pairStep [0..<n] rs ! i"
    using assms(1,3) Suc.prems IH by (intro pairStep_self_untouched) simp_all
  with IH show ?case by simp
qed

text \<open>
  Claim C10. Take a self-referential stub at position \<open>i\<close> that enters the resolver
  unpaired (as every collected stub does), and let \<open>reached\<close> be the stub array when the loop
  reaches it. If no earlier stub is then an unpaired stub between the same entities, the step
  pairs the stub with itself: its inverse side becomes its own local name and, when it was
  declared with \<open>many\<close>, it becomes many-to-many and owner. When the local name is a non-empty
  string, this is also the stub's state in the resolver's result.
\<close>

theorem self_referential_stub_pairs_with_itself:
  assumes "i < length stubs"
      and "fromEntity (stubs ! i) = toEntity (stubs ! i)"
      and "\<not> truthy (inverseSide (stubs ! i))"
      and "reached = fold pairStep [0..<i] stubs"
      and "\<forall>k<i. \<not> reverseOf (stubs ! i) (reached ! k)"
  shows "inverseSide (pairStep i reached ! i) = localName (stubs ! i)
       \<and> (origKind (stubs ! i) = Some ''many'' \<longrightarrow>
            relType (pairStep i reached ! i) = ManyToMany \<and> isOwner (pairStep i reached ! i))
       \<and> (truthy (localName (stubs ! i)) \<longrightarrow> resolve stubs ! i = pairStep i reached ! i)"
proof -
  have same: "reached ! i = stubs ! i"
    unfolding assms(4) using assms(1,2) by (intro fold_pairStep_self_untouched) simp_all
  have len: "i < length reached"
    using assms(1,4) by simp
  have step:
    "inverseSide (pairStep i reached ! i) = localName (reached ! i)"
    "origKind (reached ! i) = Some ''many'' \<Longrightarrow>
       relType (pairStep i reached ! i) = ManyToMany \<and> isOwner (pairStep i reached ! i)"
    using pairStep_self [OF len] assms(2,3,5) same by simp_all
  have "resolve stubs ! i = pairStep i reached ! i" if "truthy (localName (stubs ! i))"
  proof -
    have "truthy (inverseSide (pairStep i reached ! i))"
      using step(1) same that by simp
    moreover have "i < length (pairStep i reached)"
      using len by simp
    ultimately have
      "fold pairStep [Suc i..<length stubs] (pairStep i reached) ! i = pairStep i reached ! i"
      by (rule fold_pairStep_frozen)
    then show ?thesis
      using resolve_split [OF assms(1)] assms(4) by simp
  qed
  with step same show ?thesis by auto
qed

theorem self_referential_stub_pairs_with_itself_witness:
  "map inverseSide (resolvedStubs identifierText friendsInput) = [Some ''friends'', Some ''followers'']
   \<and> inverseSide (resolve (collectedStubs identifierText friendsInput) ! 1) = Some ''followers''
   \<and> relType (resolve (collectedStubs identifierText friendsInput) ! 1) = ManyToMany
   \<and> isOwner (resolve (collectedStubs identifierText friendsInput) ! 1)"
proof -
  let ?stubs = "collectedStubs identifierText friendsInput"
  let ?reached = "fold pairStep [0..<1] ?stubs"
  have 1: "1 < length ?stubs" by code_simp
  have 2: "fromEntity (?stubs ! 1) = toEntity (?stubs ! 1)" by code_simp
  have 3: "\<not> truthy (inverseSide (?stubs ! 1))" by code_simp
  have "\<not> reverseOf (?stubs ! 1) (?reached ! 0)" by code_simp
  then have 4: "\<forall>k<1. \<not> reverseOf (?stubs ! 1) (?reached ! k)" by simp
  have 5: "origKind (?stubs ! 1) = Some ''many''" by code_simp
  have 6: "localName (?stubs ! 1) = Some ''followers''" by code_simp
  have 7: "map inverseSide (resolvedStubs identifierText friendsInput)
             = [Some ''friends'', Some ''followers'']" by code_simp
  from self_referential_stub_pairs_with_itself [OF 1 2 3 refl 4] 5 6 7
  show ?thesis by (simp add: truthy_def)
qed

text \<open>
  Claim C5 (failing input). In the schema with the quoted key \<open>"as"\<close> the stub \<open>bs\<close> is
  paired twice, because the inverse side written by its first pairing is \<open>undefined\<close>; after
  the second pairing \<open>bs\<close> and \<open>as2\<close> are each other's inverse, both many-to-many, and both
  carry the owner flag.
\<close>

theorem both_sides_owner_with_quoted_key:
  "map localName (resolvedStubs identifierText quotedKeyInput) = [Some ''bs'', None, Some ''as2'']
   \<and> map inverseSide (resolvedStubs identifierText quotedKeyInput)
       = [Some ''as2'', Some ''bs'', Some ''bs'']
   \<and> map relType (resolvedStubs identifierText quotedKeyInput)
       = [ManyToMany, ManyToMany, ManyToMany]
   \<and> map isOwner (resolvedStubs identifierText quotedKeyInput) = [True, False, True]"
  by code_simp

text \<open>
  Claim C6 (failing input). In the self-referential schema the stub \<open>parent\<close> is not paired
  with \<open>children\<close>, the first other unpaired stub between the same entities: the search does
  not skip the stub itself, so each of the two is paired with itself.
\<close>

theorem self_reference_pairs_stub_with_itself:
  "map localName (resolvedStubs identifierText selfReferenceInput)
       = [Some ''parent'', Some ''children'']
   \<and> map inverseSide (resolvedStubs identifierText selfReferenceInput)
       = [Some ''parent'', Some ''children'']
   \<and> map relType (collectedStubs identifierText selfReferenceInput) = [ManyToOne, OneToMany]
   \<and> map relType (resolvedStubs identifierText selfReferenceInput) = [OneToOne, ManyToMany]"
  by code_simp

subsection \<open>What holds of pairs\<close>

text \<open>
  When every stub has a non-empty local name, a stub is paired at most once, and of two
  different stubs that the resolver pairs, exactly the first carries the owner flag if both
  were declared with \<open>many\<close>; if both were declared with \<open>one\<close>, the first carries it when it
  has a join column, else the second when that has one, else neither; for any other kinds
  neither does.
\<close>

lemma fold_pairStep_keeps:
  assumes "\<And>r b. h (r\<lparr>isOwner := b\<rparr>) = h r" and "\<And>r t. h (r\<lparr>relType := t\<rparr>) = h r"
      and "\<And>r s. h (r\<lparr>inverseSide := s\<rparr>) = h r" and "k < length rs"
  shows "h (fold pairStep js rs ! k) = h (rs ! k)"
  using assms(4)
proof (induction js arbitrary: rs)
  case Nil
  then show ?case by simp
next
  case (Cons j js)
  have "h (fold pairStep js (pairStep j rs) ! k) = h (pairStep j rs ! k)"
    using Cons.prems by (intro Cons.IH) simp
  also have "\<dots> = h (rs ! k)"
    using assms(1,2,3) Cons.prems by (rule pairStep_keeps)
  finally show ?case by simp
qed

lemma pairStep_changes:
  assumes "named rs" and "k < length rs" and "i < length rs"
  shows "pairStep i rs ! k = rs ! k \<or> truthy (inverseSide (pairStep i rs ! k))"
proof (cases "truthy (inverseSide (rs ! i))")
  case True
  then show ?thesis by (simp add: pairStep_def)
next
  case False
  show ?thesis
  proof (cases "findIndex (reverseOf (rs ! i)) rs")
    case None
    with False show ?thesis by (simp add: pairStep_def)
  next
    case (Some m)
    from findIndex_Some [OF Some] have m: "m < length rs" by simp
    have names: "truthy (localName (rs ! i))" "truthy (localName (rs ! m))"
      using assms(1,3) m by (auto simp: named_def)
    show ?thesis
    proof (cases "k = i \<or> k = m")
      case False
      with \<open>\<not> truthy (inverseSide (rs ! i))\<close> Some assms(2) show ?thesis
        by (simp add: pairStep_def Let_def refine_other nth_modify)
    next
      case True
      have "inverseSide (pairStep i rs ! k) = localName (rs ! (if k = m then i else m))"
        using True \<open>\<not> truthy (inverseSide (rs ! i))\<close> Some assms(2,3) m
        by (auto simp: pairStep_def Let_def refine_def nth_modify)
      with names show ?thesis by auto
    qed
  qed
qed

lemma pairStep_named: "named rs \<Longrightarrow> named (pairStep i rs)"
  unfolding named_def
  by (metis in_set_conv_nth length_pairStep pairStep_entities(3))

lemma pairStep_unpairedNotOwner:
  assumes "named rs" and "unpairedNotOwner rs" and "i < length rs"
  shows "unpairedNotOwner (pairStep i rs)"
  unfolding unpairedNotOwner_def
proof (intro ballI impI)
  fix r assume r: "r \<in> set (pairStep i rs)" and u: "\<not> truthy (inverseSide r)"
  from r obtain k where k: "k < length rs" "r = pairStep i rs ! k"
    by (auto simp: in_set_conv_nth)
  with pairStep_changes [OF assms(1) k(1) assms(3)] u have "r = rs ! k" by auto
  with k(1) u assms(2) show "\<not> isOwner r"
    by (auto simp: unpairedNotOwner_def)
qed

lemma fold_pairStep_invariants:
  assumes "named rs" and "unpairedNotOwner rs" and "n \<le> length rs"
  shows "named (fold pairStep [0..<n] rs) \<and> unpairedNotOwner (fold pairStep [0..<n] rs)"
  using assms(3)
proof (induction n)
  case 0
  with assms show ?case by simp
next
  case (Suc n)
  then have IH: "named (fold pairStep [0..<n] rs)" "unpairedNotOwner (fold pairStep [0..<n] rs)"
    by simp_all
  from Suc.prems have "n < length (fold pairStep [0..<n] rs)" by simp
  with IH show ?case
    by (simp add: pairStep_named pairStep_unpairedNotOwner)
qed

lemma owner_on_at_most_one_side:
  assumes "named stubs" and "unpairedNotOwner stubs"
      and "i < length stubs"
      and "reached = fold pairStep [0..<i] stubs"
      and "\<not> truthy (inverseSide (reached ! i))"
      and "findIndex (reverseOf (reached ! i)) reached = Some j"
      and "j \<noteq> i"
  shows "inverseSide (resolve stubs ! i) = localName (stubs ! j)"
    and "inverseSide (resolve stubs ! j) = localName (stubs ! i)"
    and "\<not> (isOwner (resolve stubs ! i) \<and> isOwner (resolve stubs ! j))"
    and "isOwner (resolve stubs ! i) \<longleftrightarrow>
           origKind (stubs ! i) = Some ''many'' \<and> origKind (stubs ! j) = Some ''many'' \<or>
           origKind (stubs ! i) = Some ''one'' \<and> origKind (stubs ! j) = Some ''one'' \<and>
             truthy (joinColumnName (stubs ! i))"
    and "isOwner (resolve stubs ! j) \<longleftrightarrow>
           origKind (stubs ! i) = Some ''one'' \<and> origKind (stubs ! j) = Some ''one'' \<and>
             \<not> truthy (joinColumnName (stubs ! i)) \<and> truthy (joinColumnName (stubs ! j))"
proof -
  have len: "length reached = length stubs"
    using assms(4) by simp
  from findIndex_Some [OF assms(6)] have j: "j < length reached" and
    rev: "reverseOf (reached ! i) (reached ! j)"
    by simp_all
  have i: "i < length reached" using assms(3) len by simp
  have inv: "named reached" "unpairedNotOwner reached"
    using fold_pairStep_invariants [OF assms(1,2), of i] assms(3,4) by simp_all
  have uj: "\<not> truthy (inverseSide (reached ! j))"
    using rev by (simp add: reverseOf_def)
  have notOwner: "\<not> isOwner (reached ! i)" "\<not> isOwner (reached ! j)"
    using inv(2) i j assms(5) uj by (auto simp: unpairedNotOwner_def)
  have names: "truthy (localName (reached ! i))" "truthy (localName (reached ! j))"
    using inv(1) i j by (auto simp: named_def)
  have keep: "localName (reached ! k) = localName (stubs ! k)"
       "origKind (reached ! k) = origKind (stubs ! k)"
       "joinColumnName (reached ! k) = joinColumnName (stubs ! k)" if "k < length stubs" for k
    unfolding assms(4) using that by (simp_all add: fold_pairStep_keeps)
  define after where "after = pairStep i reached"
  have ai: "inverseSide (after ! i) = localName (reached ! j)"
    and aj: "inverseSide (after ! j) = localName (reached ! i)"
    using assms(5,6,7) i j by (auto simp: after_def pairStep_def Let_def refine_def nth_modify)
  have oi: "isOwner (after ! i) \<longleftrightarrow>
           origKind (reached ! i) = Some ''many'' \<and> origKind (reached ! j) = Some ''many'' \<or>
           origKind (reached ! i) = Some ''one'' \<and> origKind (reached ! j) = Some ''one'' \<and>
             truthy (joinColumnName (reached ! i))"
    using assms(5,6,7) i j notOwner
    by (auto simp: after_def pairStep_def Let_def refine_def nth_modify)
  have oj: "isOwner (after ! j) \<longleftrightarrow>
           origKind (reached ! i) = Some ''one'' \<and> origKind (reached ! j) = Some ''one'' \<and>
             \<not> truthy (joinColumnName (reached ! i)) \<and> truthy (joinColumnName (reached ! j))"
    using assms(5,6,7) i j notOwner
    by (auto simp: after_def pairStep_def Let_def refine_def nth_modify)
  have fin: "resolve stubs ! k = after ! k" if "k = i \<or> k = j" for k
  proof -
    have "truthy (inverseSide (after ! k))"
      using that ai aj names by auto
    moreover have "k < length after"
      using that i j by (auto simp: after_def)
    ultimately have "fold pairStep [Suc i..<length stubs] after ! k = after ! k"
      by (rule fold_pairStep_frozen)
    then show ?thesis
      using resolve_split [OF assms(3)] assms(4) by (simp add: after_def)
  qed
  show "inverseSide (resolve stubs ! i) = localName (stubs ! j)"
    using fin ai keep j len by simp
  show "inverseSide (resolve stubs ! j) = localName (stubs ! i)"
    using fin aj keep i len by simp
  show "\<not> (isOwner (resolve stubs ! i) \<and> isOwner (resolve stubs ! j))"
    using fin oi oj by auto
  show "isOwner (resolve stubs ! i) \<longleftrightarrow>
           origKind (stubs ! i) = Some ''many'' \<and> origKind (stubs ! j) = Some ''many'' \<or>
           origKind (stubs ! i) = Some ''one'' \<and> origKind (stubs ! j) = Some ''one'' \<and>
             truthy (joinColumnName (stubs ! i))"
    using fin oi keep i j len by simp
  show "isOwner (resolve stubs ! j) \<longleftrightarrow>
           origKind (stubs ! i) = Some ''one'' \<and> origKind (stubs ! j) = Some ''one'' \<and>
             \<not> truthy (joinColumnName (stubs ! i)) \<and> truthy (joinColumnName (stubs ! j))"
    using fin oj keep i j len by simp
qed

text \<open>
  A stub that has no reverse stub in the array keeps its inverse side and its relation type.
\<close>

lemma unpaired_stub_unchanged:
  assumes "k < length rs" and "noReverse rs k"
  shows "inverseSide (resolve rs ! k) = inverseSide (rs ! k)"
    and "relType (resolve rs ! k) = relType (rs ! k)"
  using resolve_without_reverse [OF assms] by simp_all

lemma applyRelationOption_fresh:
  "inverseSide (fst (applyRelationOption p s)) = inverseSide (fst s)"
  "isOwner (fst (applyRelationOption p s)) = isOwner (fst s)"
  by (cases p; cases s; auto simp: Let_def split: node.splits list.splits)+

lemma fold_applyRelationOption_fresh:
  "inverseSide (fst (fold applyRelationOption ps s)) = inverseSide (fst s)"
  "isOwner (fst (fold applyRelationOption ps s)) = isOwner (fst s)"
  by (induction ps arbitrary: s; simp add: applyRelationOption_fresh)+

lemma relationOptions_fresh:
  "inverseSide (fst (relationOptions opts r)) = inverseSide r"
  "isOwner (fst (relationOptions opts r)) = isOwner r"
  by (simp_all add: relationOptions_def fold_applyRelationOption_fresh
        split: option.splits node.splits)

lemma withJoinColumn_fresh:
  "inverseSide (withJoinColumn ed fk r) = inverseSide r"
  "isOwner (withJoinColumn ed fk r) = isOwner r"
  by (simp_all add: withJoinColumn_def)

lemma inheritFromColumn_fresh:
  "inverseSide (inheritFromColumn c r) = inverseSide r"
  "isOwner (inheritFromColumn c r) = isOwner r"
  by (simp_all add: inheritFromColumn_def Let_def split: read.splits)

lemma collectRelation_fresh:
  assumes "fresh (relationStubs ctx)"
  shows "fresh (relationStubs (collectRelation fv p ctx))"
proof (cases p)
  case (PropertyAssignment nm v)
  show ?thesis
  proof (cases v)
    case (CallExpression callee args)
    with PropertyAssignment assms show ?thesis
      by (simp add: fresh_def Let_def inheritFromColumn_fresh withJoinColumn_fresh
            relationOptions_fresh)
  qed (use PropertyAssignment assms in simp_all)
qed (use assms in simp)

lemma declareRelations_fresh:
  assumes "declareRelations args ctx = Inr ctx'" and "fresh (relationStubs ctx)"
  shows "fresh (relationStubs ctx')"
proof -
  have "fresh (relationStubs (fold (collectRelation fv) ps ctx))" for fv ps
    using assms(2) by (rule fold_invariant [where P = "\<lambda>c. fresh (relationStubs c)"])
      (rule collectRelation_fresh)
  with assms show ?thesis
    by (auto simp: declareRelations_def Let_def split: option.splits node.splits)
qed

lemma declareTable_relationStubs:
  "declareTable g nm args ctx = Inr ctx' \<Longrightarrow> relationStubs ctx' = relationStubs ctx"
  by (auto simp: declareTable_def Let_def split: sum.splits prod.splits read.splits if_splits)

lemma declare2_fresh:
  assumes "declare2 g d ctx = Inr ctx'" and "fresh (relationStubs ctx)"
  shows "fresh (relationStubs ctx')"
proof -
  obtain fname nm init where d: "d = (fname, VariableDeclaration nm init)"
    by (cases d; cases "snd d") auto
  show ?thesis
  proof (cases "\<exists>callee args. init = Some (CallExpression callee args)")
    case True
    then obtain callee args where "init = Some (CallExpression callee args)" by blast
    with assms d show ?thesis
      by (auto split: if_splits dest: declareTable_relationStubs declareRelations_fresh)
  next
    case False
    have "declare2 g (fname, VariableDeclaration nm init) ctx = Inr ctx"
    proof (cases init)
      case (Some n)
      with False show ?thesis by (cases n) simp_all
    qed simp
    with assms d show ?thesis by simp
  qed
qed

lemma relationStubs_register [simp]: "relationStubs (register g d ctx) = relationStubs ctx"
proof -
  obtain fname nm init where d: "d = (fname, VariableDeclaration nm init)"
    by (cases d; cases "snd d") auto
  show ?thesis
  proof (cases init)
    case (Some n)
    with d show ?thesis by (cases n) (simp_all add: Let_def)
  qed (simp add: d)
qed

lemma relationStubs_fold_register [simp]:
  "relationStubs (fold (register g) ds ctx) = relationStubs ctx"
  by (induction ds arbitrary: ctx) simp_all

text \<open>The stubs that reach the resolver are all unpaired and none is an owner.\<close>

lemma collected_stubs_fresh:
  assumes "collect g filesInput = Inr ctx"
  shows "fresh (relationStubs ctx)"
proof -
  from assms have
    "forEachE (declare2 g) (concat (map declarationsOf filesInput))
       (fold (register g) (concat (map declarationsOf filesInput)) emptyConversion) = Inr ctx"
    by (simp add: collect_def Let_def)
  then show ?thesis
  proof (rule forEachE_invariant [where P = "\<lambda>c. fresh (relationStubs c)"])
    show "fresh (relationStubs
            (fold (register g) (concat (map declarationsOf filesInput)) emptyConversion))"
      by (simp add: emptyConversion_def fresh_def)
  qed (rule declare2_fresh)
qed

lemma fresh_unpairedNotOwner: "fresh rs \<Longrightarrow> unpairedNotOwner rs"
  by (simp add: fresh_def unpairedNotOwner_def)

section \<open>The whole conversion\<close>

text \<open>
  \<open>convertSchemas\<close> builds the entity model (\<open>buildEntities\<close>: the registry, the tables and
  stubs, the resolver, the relations attached to their entities) and then prints it
  (\<open>emitFiles\<close>). An exception in either part is an exception of \<open>convertSchemas\<close>.
\<close>

lemma set_insertEntry: "set (insertEntry e xs) = insert e (set xs)"
  by (induction xs) auto

lemma set_foldr_insertEntry: "set (foldr insertEntry xs []) = set xs"
  by (induction xs) (simp_all add: set_insertEntry)

lemma set_ownEntries: "set (ownEntries obj) = set obj"
  by (auto simp: ownEntries_def set_foldr_insertEntry)

lemma convertSchemas_returns_iff:
  "convertSchemas getText filesInput = Inr out \<longleftrightarrow>
   (\<exists>ctx. buildEntities getText filesInput = Inr ctx \<and> emitFiles ctx = Inr out)"
  by (auto simp: convertSchemas_def split: sum.splits)

text \<open>
  Claim C4 (failing input). When the first argument of \<open>relations\<close> names a variable
  without table declaration, the stub has no source entity, and attaching it reads
  \<open>relations\<close> of an entity that does not exist: the conversion throws a \<open>TypeError\<close>.
\<close>

theorem relations_of_undeclared_table_raise:
  "convertSchemas identifierText ghostInput = Inl TypeError"
  by code_simp

text \<open>
  A missing target entity, with no foreign key to find, does not fail: the stub keeps the
  name derived from the variable, no join column, and its inferred type.
\<close>

lemma missing_target_degrades:
  "map toEntity (resolvedStubs identifierText missingTargetInput) = [Value ''Teams'']
   \<and> map joinColumnName (resolvedStubs identifierText missingTargetInput) = [None]
   \<and> map relType (resolvedStubs identifierText missingTargetInput) = [OneToOne]
   \<and> map inverseSide (resolvedStubs identifierText missingTargetInput) = [None]"
  by code_simp

subsection \<open>Every entity is declared by a table of the input\<close>

lemma declaredByE:
  assumes "declaredBy g v2e decl ent d"
  obtains fname tbl callee args cols where
    "decl = (fname, VariableDeclaration tbl (Some (CallExpression callee args)))"
    "escapedText callee = Some ''pgTable''"
    "toKey (getProp v2e (keyOf (escapedText tbl))) = ent"
    "tableColumns g (arg1 args) = Inr cols"
    "columns d = markKeys (set (compositeKeyNames (arg2 args))) cols"
  using assms unfolding declaredBy_def
  by (auto split: prod.splits variableDeclaration.splits option.splits node.splits sum.splits)

lemma declaredBy_columns:
  "declaredBy g v2e decl ent d \<Longrightarrow> columns d' = columns d \<Longrightarrow> declaredBy g v2e decl ent d'"
  unfolding declaredBy_def
  by (auto split: prod.splits variableDeclaration.splits option.splits node.splits sum.splits)

lemma allDeclared_setProp:
  assumes "allDeclared g v2e decls ed" and "\<exists>decl\<in>set decls. declaredBy g v2e decl ent d"
  shows "allDeclared g v2e decls (setProp ent d ed)"
  using assms unfolding allDeclared_def by (auto dest!: in_setProp)

lemma allDeclared_update:
  assumes "allDeclared g v2e decls ed" and "getProp ed ent = Value d"
      and "columns d' = columns d"
  shows "allDeclared g v2e decls (setProp ent d' ed)"
proof -
  from assms(2) have "(ent, d) \<in> set ed"
    by (auto simp: getProp_Value dest: map_of_SomeD)
  with assms(1) obtain decl where "decl \<in> set decls" "declaredBy g v2e decl ent d"
    by (auto simp: allDeclared_def)
  with assms(3) have "\<exists>decl\<in>set decls. declaredBy g v2e decl ent d'"
    by (auto intro: declaredBy_columns)
  with assms(1) show ?thesis by (rule allDeclared_setProp)
qed

lemma declareTable_declared:
  assumes "declareTable g nm args ctx = Inr ctx'"
      and "allDeclared g (var2entity ctx) decls (entityData ctx)"
      and "(fname, VariableDeclaration nm (Some (CallExpression callee args))) \<in> set decls"
      and "escapedText callee = Some ''pgTable''"
  shows "var2entity ctx' = var2entity ctx"
    and "allDeclared g (var2entity ctx) decls (entityData ctx')"
proof -
  define entName where "entName = toKey (getProp (var2entity ctx) (keyOf (escapedText nm)))"
  from assms(1) obtain cols cols' idxs where
    cols: "tableColumns g (arg1 args) = Inr cols" and
    extras: "tableExtras (arg2 args) cols = Inr (cols', idxs)" and
    res: "(case getProp (entityData ctx) entName of
             Undefined \<Rightarrow>
               Inr (ctx\<lparr> entityData :=
                 setProp entName
                   \<lparr> tableName = (case arg0 args of Some (StringLiteral t) \<Rightarrow> Some t | _ \<Rightarrow> None),
                     columns = cols', relations = [], indices = idxs \<rparr> (entityData ctx) \<rparr>)
           | Value ent \<Rightarrow>
               Inr (ctx\<lparr> entityData :=
                 setProp entName (ent\<lparr>indices := indices ent @ idxs\<rparr>) (entityData ctx) \<rparr>)
           | Member k \<Rightarrow> if idxs = [] then Inr ctx else Inl TypeError) = Inr ctx'"
    unfolding declareTable_def entName_def Let_def
    by (auto split: sum.splits prod.splits)
  have marked: "cols' = markKeys (set (compositeKeyNames (arg2 args))) cols"
    using extras by (rule tableExtras_markKeys)
  show "var2entity ctx' = var2entity ctx"
    using res by (auto split: read.splits if_splits)
  show "allDeclared g (var2entity ctx) decls (entityData ctx')"
  proof (cases "getProp (entityData ctx) entName")
    case Undefined
    let ?d = "\<lparr> tableName = (case arg0 args of Some (StringLiteral t) \<Rightarrow> Some t | _ \<Rightarrow> None),
               columns = cols', relations = [], indices = idxs \<rparr>"
    have "declaredBy g (var2entity ctx)
            (fname, VariableDeclaration nm (Some (CallExpression callee args))) entName ?d"
      using assms(4) cols marked by (simp add: declaredBy_def entName_def)
    with assms(3) have "\<exists>decl\<in>set decls. declaredBy g (var2entity ctx) decl entName ?d"
      by blast
    with assms(2) have "allDeclared g (var2entity ctx) decls (setProp entName ?d (entityData ctx))"
      by (rule allDeclared_setProp)
    with res Undefined show ?thesis by auto
  next
    case (Value ent)
    have "allDeclared g (var2entity ctx) decls
            (setProp entName (ent\<lparr>indices := indices ent @ idxs\<rparr>) (entityData ctx))"
      using assms(2) Value by (rule allDeclared_update) simp
    with res Value show ?thesis by auto
  next
    case (Member k)
    with res assms(2) show ?thesis by (auto split: if_splits)
  qed
qed

lemma entityData_collectRelation [simp]:
  "entityData (collectRelation fv p ctx) = entityData ctx"
proof (cases p)
  case (PropertyAssignment nm v)
  then show ?thesis by (cases v) (simp_all add: Let_def)
qed simp

lemma entityData_fold_collectRelation [simp]:
  "entityData (fold (collectRelation fv) ps ctx) = entityData ctx"
  by (induction ps arbitrary: ctx) simp_all

lemma var2entity_collectRelation [simp]:
  "var2entity (collectRelation fv p ctx) = var2entity ctx"
proof (cases p)
  case (PropertyAssignment nm v)
  then show ?thesis by (cases v) (simp_all add: Let_def)
qed simp

lemma var2entity_fold_collectRelation [simp]:
  "var2entity (fold (collectRelation fv) ps ctx) = var2entity ctx"
  by (induction ps arbitrary: ctx) simp_all

lemma declareRelations_entityData:
  assumes "declareRelations args ctx = Inr ctx'"
  shows "entityData ctx' = entityData ctx" and "var2entity ctx' = var2entity ctx"
  using assms
  by (auto simp: declareRelations_def Let_def split: option.splits node.splits)

lemma declare2_declared:
  assumes "declare2 g decl ctx = Inr ctx'" and "decl \<in> set decls"
      and "var2entity ctx = v2e \<and> allDeclared g v2e decls (entityData ctx)"
  shows "var2entity ctx' = v2e \<and> allDeclared g v2e decls (entityData ctx')"
proof -
  obtain fname nm init where d: "decl = (fname, VariableDeclaration nm init)"
    by (cases decl; cases "snd decl") auto
  show ?thesis
  proof (cases "\<exists>callee args. init = Some (CallExpression callee args)")
    case True
    then obtain callee args where init: "init = Some (CallExpression callee args)" by blast
    show ?thesis
    proof (cases "escapedText callee = Some ''pgTable''")
      case True
      with assms(1) d init have t: "declareTable g nm args ctx = Inr ctx'" by simp
      from assms(2) d init have
        "(fname, VariableDeclaration nm (Some (CallExpression callee args))) \<in> set decls"
        by simp
      from declareTable_declared [OF t _ this True] assms(3) show ?thesis
        by simp
    next
      case False
      with assms d init show ?thesis
        by (auto split: if_splits dest: declareRelations_entityData)
    qed
  next
    case False
    have "declare2 g (fname, VariableDeclaration nm init) ctx = Inr ctx"
    proof (cases init)
      case (Some n)
      with False show ?thesis by (cases n) simp_all
    qed simp
    with assms d show ?thesis by simp
  qed
qed

lemma entityData_register [simp]: "entityData (register g d ctx) = entityData ctx"
proof -
  obtain fname nm init where d: "d = (fname, VariableDeclaration nm init)"
    by (cases d; cases "snd d") auto
  show ?thesis
  proof (cases init)
    case (Some n)
    with d show ?thesis by (cases n) (simp_all add: Let_def)
  qed (simp add: d)
qed

lemma entityData_fold_register [simp]:
  "entityData (fold (register g) ds ctx) = entityData ctx"
  by (induction ds arbitrary: ctx) simp_all

lemma collect_declared:
  assumes "collect g filesInput = Inr ctx"
  shows "allDeclared g (var2entity ctx) (concat (map declarationsOf filesInput)) (entityData ctx)"
proof -
  let ?decls = "concat (map declarationsOf filesInput)"
  let ?start = "fold (register g) ?decls emptyConversion"
  from assms have run: "forEachE (declare2 g) ?decls ?start = Inr ctx"
    by (simp add: collect_def Let_def)
  have "var2entity ctx = var2entity ?start \<and>
        allDeclared g (var2entity ?start) ?decls (entityData ctx)"
    using run
  proof (rule forEachE_invariant
      [where P = "\<lambda>c. var2entity c = var2entity ?start \<and>
                       allDeclared g (var2entity ?start) ?decls (entityData c)"])
    show "var2entity ?start = var2entity ?start \<and>
          allDeclared g (var2entity ?start) ?decls (entityData ?start)"
      by (simp add: emptyConversion_def allDeclared_def)
  next
    fix x a b
    assume "x \<in> set ?decls" "declare2 g x a = Inr b"
      "var2entity a = var2entity ?start \<and> allDeclared g (var2entity ?start) ?decls (entityData a)"
    then show
      "var2entity b = var2entity ?start \<and> allDeclared g (var2entity ?start) ?decls (entityData b)"
      using declare2_declared by blast
  qed
  then show ?thesis by simp
qed

lemma attachRelation_declared:
  assumes "attachRelation r ed = Inr ed'" and "allDeclared g v2e decls ed"
  shows "allDeclared g v2e decls ed'"
proof -
  from assms(1) obtain ent where ent: "getProp ed (toKey (fromEntity r)) = Value ent"
    by (auto simp: attachRelation_def split: read.splits)
  have "allDeclared g v2e decls
          (setProp (toKey (fromEntity r)) (ent\<lparr>relations := relations ent @ [r]\<rparr>) ed)"
    using assms(2) ent by (rule allDeclared_update) simp
  with assms ent show ?thesis
    by (auto simp: attachRelation_def split: if_splits)
qed

lemma buildEntities_declared:
  assumes "buildEntities g filesInput = Inr ctx"
  shows "allDeclared g (var2entity ctx) (concat (map declarationsOf filesInput)) (entityData ctx)"
proof -
  from assms obtain ctx0 ed where
    ctx0: "collect g filesInput = Inr ctx0" and
    ed: "forEachE attachRelation (resolve (relationStubs ctx0)) (entityData ctx0) = Inr ed" and
    ctx: "entityData ctx = ed" "var2entity ctx = var2entity ctx0"
    by (auto simp: buildEntities_def Let_def split: sum.splits)
  from ed have
    "allDeclared g (var2entity ctx0) (concat (map declarationsOf filesInput)) ed"
  proof (rule forEachE_invariant
      [where P = "allDeclared g (var2entity ctx0) (concat (map declarationsOf filesInput))"])
    show "allDeclared g (var2entity ctx0) (concat (map declarationsOf filesInput)) (entityData ctx0)"
      using ctx0 by (rule collect_declared)
  qed (rule attachRelation_declared)
  with ctx show ?thesis by simp
qed

subsection \<open>The printed text of a column\<close>

lemma nullable_false_line:
  assumes "\<not> col_nullable c"
  shows "''        nullable: false,'' \<in> set (columnLines k c)"
proof -
  have "fieldLine c ''nullable'' = [''        nullable: false,'']"
    using assms by (simp add: fieldLine_def field_def printColumnField_def)
  then have "''        nullable: false,'' \<in> set (fieldLine c ''nullable'')"
    by simp
  moreover have "''nullable'' \<in> set ORDER"
    by (simp add: ORDER_def)
  ultimately have "''        nullable: false,'' \<in> set (concat (map (fieldLine c) ORDER))"
    unfolding set_concat set_map by blast
  then show ?thesis by (simp add: columnLines_def)
qed

lemma hasInfix_iff: "hasInfix p s \<longleftrightarrow> occursIn p s"
proof (induction s)
  case Nil
  then show ?case by (auto simp: occursIn_def)
next
  case (Cons c cs)
  show ?case
  proof
    assume "hasInfix p (c # cs)"
    then consider "take (length p) (c # cs) = p" | "occursIn p cs"
      using Cons.IH by auto
    then show "occursIn p (c # cs)"
    proof cases
      case 1
      have "c # cs = [] @ take (length p) (c # cs) @ drop (length p) (c # cs)"
        by simp
      with 1 show ?thesis unfolding occursIn_def by metis
    next
      case 2
      then obtain a b where "cs = a @ p @ b" unfolding occursIn_def by blast
      then have "c # cs = (c # a) @ p @ b" by simp
      then show ?thesis unfolding occursIn_def by blast
    qed
  next
    assume "occursIn p (c # cs)"
    then obtain a b where ab: "c # cs = a @ p @ b" unfolding occursIn_def by blast
    show "hasInfix p (c # cs)"
    proof (cases a)
      case Nil
      with ab have "take (length p) (c # cs) = p" by simp
      then show ?thesis by simp
    next
      case (Cons x a')
      with ab have "cs = a' @ p @ b" by simp
      then have "occursIn p cs" unfolding occursIn_def by blast
      with Cons.IH show ?thesis by simp
    qed
  qed
qed

lemma occursIn_trans: "occursIn x y \<Longrightarrow> occursIn y z \<Longrightarrow> occursIn x z"
proof -
  assume "occursIn x y" "occursIn y z"
  then obtain a b c d where "y = a @ x @ b" "z = c @ y @ d"
    unfolding occursIn_def by blast
  then have "z = (c @ a) @ x @ (b @ d)" by simp
  then show ?thesis unfolding occursIn_def by blast
qed

lemma occursIn_middle: "occursIn x (a @ x @ b)"
  unfolding occursIn_def by blast

lemma joinWith_Cons: "xs \<noteq> [] \<Longrightarrow> joinWith sep (x # xs) = x @ sep @ joinWith sep xs"
  by (cases xs) simp_all

lemma joinWith_append:
  "xs \<noteq> [] \<Longrightarrow> ys \<noteq> [] \<Longrightarrow> joinWith sep (xs @ ys) = joinWith sep xs @ sep @ joinWith sep ys"
proof (induction xs)
  case Nil
  then show ?case by simp
next
  case (Cons x xs)
  show ?case
  proof (cases "xs = []")
    case True
    with Cons.prems show ?thesis by (simp add: joinWith_Cons)
  next
    case False
    with Cons show ?thesis by (simp add: joinWith_Cons)
  qed
qed

lemma joinWith_three:
  assumes "us \<noteq> []" and "vs \<noteq> []" and "ws \<noteq> []"
  shows "joinWith sep (us @ vs @ ws) =
           joinWith sep us @ sep @ joinWith sep vs @ sep @ joinWith sep ws"
  using assms by (simp add: joinWith_append)

lemma in_joinWith:
  assumes "x \<in> set xs"
  shows "occursIn x (joinWith sep xs)"
proof -
  from assms obtain us ws where xs: "xs = us @ [x] @ ws"
    by (auto dest: split_list)
  have "\<exists>a b. joinWith sep (us @ [x] @ ws) = a @ x @ b"
  proof (cases "us = []")
    case True
    show ?thesis
    proof (cases "ws = []")
      case True
      with \<open>us = []\<close> have "joinWith sep (us @ [x] @ ws) = [] @ x @ []" by simp
      then show ?thesis by blast
    next
      case False
      with True have "joinWith sep (us @ [x] @ ws) = [] @ x @ (sep @ joinWith sep ws)"
        by (simp add: joinWith_Cons)
      then show ?thesis by blast
    qed
  next
    case False
    show ?thesis
    proof (cases "ws = []")
      case True
      with False have "joinWith sep (us @ [x] @ ws) = (joinWith sep us @ sep) @ x @ []"
        by (simp add: joinWith_append)
      then show ?thesis by blast
    next
      case False
      with \<open>us \<noteq> []\<close> have
        "joinWith sep (us @ [x] @ ws) = (joinWith sep us @ sep) @ x @ (sep @ joinWith sep ws)"
        using joinWith_three [of us "[x]" ws sep] by simp
      then show ?thesis by blast
    qed
  qed
  with xs show ?thesis unfolding occursIn_def by simp
qed

lemma joinWith_first: "\<exists>r. joinWith sep (x # xs) = x @ r"
  by (cases xs) simp_all

lemma joinWith_last: "\<exists>r. joinWith sep (xs @ [x]) = r @ x"
proof (cases "xs = []")
  case True
  then show ?thesis by simp
next
  case False
  then have "joinWith sep (xs @ [x]) = (joinWith sep xs @ sep) @ x"
    by (simp add: joinWith_append)
  then show ?thesis by blast
qed

lemma trim_inside:
  assumes "x \<in> set a" and "\<not> isSpace x" and "\<not> isSpace z"
  shows "trim (a @ m @ [z]) = dropWhile isSpace a @ m @ [z]"
proof -
  have "dropWhile isSpace (a @ m @ [z]) = dropWhile isSpace a @ m @ [z]"
    using assms(1,2) by (rule dropWhile_append1)
  then show ?thesis
    using assms(3) by (simp add: trim_def)
qed

lemma dropTrailingComma_snoc: "dropTrailingComma (a @ m @ '','') = a @ m"
  by (simp add: dropTrailingComma_def butlast_append)

lemma columnLines_not_empty: "columnLines k c \<noteq> []"
  by (simp add: columnLines_def)

text \<open>The block of a column is part of the text of its entity as the file exports it.\<close>

lemma block_in_entityText:
  assumes "(k, c) \<in> set (columns d)"
  shows "occursIn (joinWith newline (columnLines k c)) (exportEntry (entityText ent d))"
proof -
  let ?f = "\<lambda>(col, cfg). columnLines col cfg"
  let ?first = "ent @ '': new EntitySchema({''"
  let ?head = "[''    name: '' @ quoted ent @ '','',
                ''    tableName: '' @
                   quoted (case tableName d of None \<Rightarrow> ''null'' | Some t \<Rightarrow> t) @ '','',
                ''    columns: {'']"
  let ?tail = "[''    },''] @
        (if relations d \<noteq> []
         then [''    relations: {''] @ map printRelation (relations d) @ [''    },'']
         else []) @
        (if indices d \<noteq> []
         then [''    indices: [''] @ map indexLine (indices d) @ [''    ],'']
         else [])"
  let ?block = "joinWith newline (columnLines k c)"
  from assms have "(k, c) \<in> set (ownEntries (columns d))"
    by (simp add: set_ownEntries)
  then obtain e1 e2 where e: "ownEntries (columns d) = e1 @ (k, c) # e2"
    by (auto dest: split_list)
  define us where "us = ?first # ?head @ concat (map ?f e1)"
  define ws where "ws = (concat (map ?f e2) @ ?tail) @ [''  }),'']"
  have lines: "entityText ent d = trim (joinWith newline (us @ columnLines k c @ ws))"
    by (simp add: entityText_def e us_def ws_def)
  have us: "us \<noteq> []" and ws: "ws \<noteq> []"
    by (simp_all add: us_def ws_def)
  obtain r1 where r1: "joinWith newline us = ?first @ r1"
    unfolding us_def using joinWith_first by blast
  obtain r2 where r2: "joinWith newline ws = r2 @ ''  }),''"
    unfolding ws_def using joinWith_last by blast
  have joined: "joinWith newline (us @ columnLines k c @ ws) =
      (?first @ r1 @ newline) @ (?block @ newline @ r2 @ ''  })'') @ '',''"
    using joinWith_three [OF us columnLines_not_empty ws, of newline k c] r1 r2 by simp
  have colon: "CHR '':'' \<in> set (?first @ r1 @ newline)" by simp
  have et: "entityText ent d =
      dropWhile isSpace (?first @ r1 @ newline) @ (?block @ newline @ r2 @ ''  })'') @ '',''"
    unfolding lines joined
    by (rule trim_inside [OF colon]) (simp_all add: isSpace_def)
  have "dropTrailingComma (entityText ent d) =
      dropWhile isSpace (?first @ r1 @ newline) @ (?block @ newline @ r2 @ ''  })'')"
    unfolding et by (rule dropTrailingComma_snoc)
  then have "occursIn ?block (dropTrailingComma (entityText ent d))"
    by (simp only: occursIn_middle)
  moreover have "occursIn (dropTrailingComma s) (exportEntry s)" for s
  proof -
    have "\<exists>p. exportEntry s = p @ dropTrailingComma s @ []"
    proof (cases "leadingName s")
      case None
      then have "exportEntry s = ''  '' @ dropTrailingComma s @ []"
        by (simp only: exportEntry_def option.case append_Nil2)
      then show ?thesis by blast
    next
      case (Some n)
      then have "exportEntry s =
          (''  /** @type {typeorm.EntitySchema<'' @ n @ ''>} */'' @ newline @ ''  '') @
          dropTrailingComma s @ []"
        by (simp only: exportEntry_def option.case append_Nil2 append_assoc)
      then show ?thesis by blast
    qed
    then show ?thesis unfolding occursIn_def by blast
  qed
  ultimately show ?thesis by (rule occursIn_trans)
qed

lemma entry_in_fileText:
  assumes "s \<in> set schemas"
  shows "occursIn (exportEntry s) (fileText ed schemas)"
proof -
  have "occursIn (exportEntry s) (joinWith ('','' @ newline) (map exportEntry schemas))"
    using assms by (intro in_joinWith) simp
  moreover have
    "occursIn (joinWith ('','' @ newline) (map exportEntry schemas)) (fileText ed schemas)"
    unfolding fileText_def by (intro in_joinWith) simp
  ultimately show ?thesis by (rule occursIn_trans)
qed

subsection \<open>The files that are written\<close>

text \<open>
  The text of every entity is filed under its source file, every key of \<open>fileOutputMap\<close> is
  the source file of an entity, and a key is written once.
\<close>

lemma fileEntity_step:
  assumes "fileEntity e2f (ent, d) fom = Inr fom'"
  shows "\<exists>old. fom' = setProp (toKey (getProp e2f ent)) (old @ [entityText ent d]) fom \<and>
               (map_of fom (toKey (getProp e2f ent)) = Some old \<or>
                map_of fom (toKey (getProp e2f ent)) = None \<and> old = [])"
  using assms
  by (auto simp: fileEntity_def Let_def getProp_Value dest: getProp_no_value split: read.splits)

lemma filed:
  assumes "forEachE (fileEntity e2f) xs fom0 = Inr fom"
  shows "(\<forall>t s0. map_of fom0 t = Some s0 \<longrightarrow> (\<exists>s. map_of fom t = Some s \<and> set s0 \<subseteq> set s))
       \<and> (\<forall>(ent, d) \<in> set xs.
             \<exists>s. map_of fom (toKey (getProp e2f ent)) = Some s \<and> entityText ent d \<in> set s)
       \<and> (\<forall>t s. map_of fom t = Some s \<longrightarrow>
             map_of fom0 t \<noteq> None \<or> (\<exists>(ent, d) \<in> set xs. t = toKey (getProp e2f ent)))
       \<and> (distinct (map fst fom0) \<longrightarrow> distinct (map fst fom))"
  using assms
proof (induction xs arbitrary: fom0)
  case Nil
  then show ?case by simp
next
  case (Cons x xs)
  obtain ent d where x: "x = (ent, d)" by (cases x)
  from Cons.prems x obtain fom1 where
    step: "fileEntity e2f (ent, d) fom0 = Inr fom1" and
    rest: "forEachE (fileEntity e2f) xs fom1 = Inr fom"
    by (auto split: sum.splits)
  let ?t = "toKey (getProp e2f ent)"
  from fileEntity_step [OF step] obtain old where
    fom1: "fom1 = setProp ?t (old @ [entityText ent d]) fom0" and
    old: "map_of fom0 ?t = Some old \<or> map_of fom0 ?t = None \<and> old = []"
    by blast
  have m1: "map_of fom1 = (map_of fom0)(?t \<mapsto> old @ [entityText ent d])"
    by (simp add: fom1 map_of_setProp)
  note IH = Cons.IH [OF rest]
  have a: "\<exists>s. map_of fom t = Some s \<and> set s0 \<subseteq> set s" if "map_of fom0 t = Some s0" for t s0
  proof -
    from that old m1 obtain s1 where "map_of fom1 t = Some s1" "set s0 \<subseteq> set s1"
      by (cases "t = ?t") auto
    with IH show ?thesis by (meson subset_trans)
  qed
  have b: "\<exists>s. map_of fom (toKey (getProp e2f ent')) = Some s \<and> entityText ent' d' \<in> set s"
    if "(ent', d') \<in> set (x # xs)" for ent' d'
  proof (cases "(ent', d') = (ent, d)")
    case True
    have "map_of fom1 ?t = Some (old @ [entityText ent d])" by (simp add: m1)
    with IH obtain s where "map_of fom ?t = Some s" "set (old @ [entityText ent d]) \<subseteq> set s"
      by meson
    with True show ?thesis by auto
  next
    case False
    with that x have "(ent', d') \<in> set xs" by auto
    with IH show ?thesis by blast
  qed
  have c: "map_of fom0 t \<noteq> None \<or> (\<exists>(ent', d') \<in> set (x # xs). t = toKey (getProp e2f ent'))"
    if "map_of fom t = Some s" for t s
  proof -
    from IH that have
      "map_of fom1 t \<noteq> None \<or> (\<exists>(ent', d') \<in> set xs. t = toKey (getProp e2f ent'))"
      by blast
    then show ?thesis
      using m1 x by (cases "t = ?t") auto
  qed
  have dd: "distinct (map fst fom)" if "distinct (map fst fom0)"
    using IH that by (simp add: fom1 distinct_setProp)
  from a b c dd show ?case by blast
qed

lemma written_other:
  assumes "\<forall>(t, s) \<in> set ys. outputName t \<noteq> f"
  shows "map_of (fold (\<lambda>(t, s). setProp (outputName t) (fileText ed s)) ys acc) f = map_of acc f"
  using assms by (induction ys arbitrary: acc) (auto simp: map_of_setProp)

lemma written_once:
  assumes "(t, s) \<in> set ys"
      and "\<forall>(t', s') \<in> set ys. outputName t' = outputName t \<longrightarrow> t' = t \<and> s' = s"
  shows "map_of (fold (\<lambda>(t, s). setProp (outputName t) (fileText ed s)) ys acc) (outputName t)
           = Some (fileText ed s)"
  using assms
proof (induction ys arbitrary: acc)
  case Nil
  then show ?case by simp
next
  case (Cons y ys)
  show ?case
  proof (cases "(t, s) \<in> set ys")
    case True
    with Cons show ?thesis by simp
  next
    case False
    with Cons.prems have y: "y = (t, s)" by simp
    have "\<forall>(t', s') \<in> set ys. outputName t' \<noteq> outputName t"
      using Cons.prems(2) False by auto
    from written_other [OF this] y show ?thesis
      by (simp add: map_of_setProp)
  qed
qed

lemma emitted_entity:
  assumes "emitFiles ctx = Inr out" and "(ent, d) \<in> set (entityData ctx)"
      and "\<forall>(ent', d') \<in> set (entityData ctx).
             outputName (sourceFile ctx ent') = outputName (sourceFile ctx ent) \<longrightarrow>
             sourceFile ctx ent' = sourceFile ctx ent"
  shows "\<exists>schemas. (outputName (sourceFile ctx ent), fileText (entityData ctx) schemas) \<in> set out \<and>
                   entityText ent d \<in> set schemas"
proof -
  let ?put = "\<lambda>(t, s). setProp (outputName t) (fileText (entityData ctx) s)"
  from assms(1) obtain fom where
    fom: "forEachE (fileEntity (entity2file ctx)) (ownEntries (entityData ctx)) [] = Inr fom" and
    out: "out = fold ?put (ownEntries fom) []"
    by (auto simp: emitFiles_def split: sum.splits)
  note f = filed [OF fom]
  have dist: "distinct (map fst fom)" using f by simp
  from f assms(2) obtain s where
    s: "map_of fom (sourceFile ctx ent) = Some s" "entityText ent d \<in> set s"
    unfolding sourceFile_def set_ownEntries by blast
  have mem: "(sourceFile ctx ent, s) \<in> set (ownEntries fom)"
    using s(1) by (simp add: set_ownEntries map_of_SomeD)
  have once: "\<forall>(t', s') \<in> set (ownEntries fom).
      outputName t' = outputName (sourceFile ctx ent) \<longrightarrow> t' = sourceFile ctx ent \<and> s' = s"
  proof (clarify)
    fix t' s'
    assume in': "(t', s') \<in> set (ownEntries fom)"
       and same: "outputName t' = outputName (sourceFile ctx ent)"
    from in' dist have m': "map_of fom t' = Some s'"
      by (simp add: set_ownEntries)
    with f obtain ent' d' where "(ent', d') \<in> set (entityData ctx)" "t' = sourceFile ctx ent'"
      unfolding sourceFile_def set_ownEntries by fastforce
    with assms(3) same have "t' = sourceFile ctx ent" by auto
    with m' s(1) show "t' = sourceFile ctx ent \<and> s' = s" by simp
  qed
  have "map_of out (outputName (sourceFile ctx ent)) = Some (fileText (entityData ctx) s)"
    unfolding out using mem once by (rule written_once)
  then have "(outputName (sourceFile ctx ent), fileText (entityData ctx) s) \<in> set out"
    by (rule map_of_SomeD)
  with s(2) show ?thesis by blast
qed

text \<open>
  Two source files with the same output name give one file, with the text of the later one:
  the entity \<open>Users\<close> of \<^verbatim>\<open>a.ts\<close> is in the model and not in the output.
\<close>

lemma same_output_name_replaces:
  "map_sum id (map fst \<circ> entityData) (buildEntities identifierText sameOutputInput)
     = Inr [''Users'', ''Posts'']
   \<and> map_sum id (map (\<lambda>(f, t). (f, hasInfix ''Users'' t, hasInfix ''Posts'' t)))
       (convertSchemas identifierText sameOutputInput)
     = Inr [(''a.js'', False, True)]"
  by code_simp

subsection \<open>Columns that are not nullable\<close>

text \<open>
  Claim C7. Take a run of the conversion that returns, an entity of its model and a column
  \<open>c\<close> of that entity under the key \<open>k\<close>. Then:
  \<^item> if \<open>c\<close> is primary it is not nullable;
  \<^item> the input has a table declaration, registered under the entity's name, whose column
    object has a property with the key \<open>k\<close> and none with that key after it, and \<open>c\<close> is the
    descriptor that \<open>getColumn\<close> returned for that property, marked primary and not nullable
    when the table's third argument names \<open>k\<close> in a composite primary key; so \<open>c\<close> is not
    nullable when the modifier walk over that property's initializer applied \<open>notNull\<close> or
    \<open>primaryKey\<close>, or when \<open>k\<close> is a member of a composite primary key;
  \<^item> the block printed for \<open>c\<close> is part of the text that the conversion returns for the
    output file of the entity's source file, unless another entity is filed under a
    different source file with the same output file (the later text then replaces the
    earlier one);
  \<^item> that block has the line \<open>nullable: false\<close> when \<open>c\<close> is not nullable.
\<close>

theorem not_null_and_primary_key_columns_are_not_nullable:
  assumes "buildEntities getText filesInput = Inr ctx"
      and "convertSchemas getText filesInput = Inr out"
      and "(ent, d) \<in> set (entityData ctx)"
      and "(k, c) \<in> set (columns d)"
  shows "(col_primary c \<longrightarrow> \<not> col_nullable c)
       \<and> (\<exists>fname tbl callee args before nm init after c0.
             (fname, VariableDeclaration tbl (Some (CallExpression callee args)))
               \<in> set (concat (map declarationsOf filesInput)) \<and>
             escapedText callee = Some ''pgTable'' \<and>
             toKey (getProp (var2entity ctx) (keyOf (escapedText tbl))) = ent \<and>
             arg1 args = Some (ObjectLiteralExpression (before @ PropertyAssignment nm init # after)) \<and>
             keyOf (escapedText nm) = k \<and>
             (\<forall>p\<in>set after. propertyKey p \<noteq> Some k) \<and>
             getColumn getText init (escapedText nm) = Inr c0 \<and>
             c = (if k \<in> set (compositeKeyNames (arg2 args)) then markedPrimary c0 else c0) \<and>
             (Some ''notNull'' \<in> set (appliedMethods init) \<or>
              Some ''primaryKey'' \<in> set (appliedMethods init) \<or>
              k \<in> set (compositeKeyNames (arg2 args)) \<longrightarrow> \<not> col_nullable c) \<and>
             (k \<in> set (compositeKeyNames (arg2 args)) \<longrightarrow> col_primary c))
       \<and> ((\<forall>(ent', d') \<in> set (entityData ctx).
               outputName (sourceFile ctx ent') = outputName (sourceFile ctx ent) \<longrightarrow>
               sourceFile ctx ent' = sourceFile ctx ent) \<longrightarrow>
            (\<exists>text. (outputName (sourceFile ctx ent), text) \<in> set out \<and>
                    hasInfix (joinWith newline (columnLines k c)) text))
       \<and> (\<not> col_nullable c \<longrightarrow> ''        nullable: false,'' \<in> set (columnLines k c))"
proof -
  let ?decls = "concat (map declarationsOf filesInput)"
  from buildEntities_declared [OF assms(1)] assms(3) have
    "\<exists>decl\<in>set ?decls. declaredBy getText (var2entity ctx) decl ent d"
    unfolding allDeclared_def by blast
  then obtain decl where
    decl: "decl \<in> set ?decls" "declaredBy getText (var2entity ctx) decl ent d"
    by blast
  from decl(2) obtain fname tbl callee args cols where
    h: "decl = (fname, VariableDeclaration tbl (Some (CallExpression callee args)))"
       "escapedText callee = Some ''pgTable''"
       "toKey (getProp (var2entity ctx) (keyOf (escapedText tbl))) = ent"
       "tableColumns getText (arg1 args) = Inr cols"
       "columns d = markKeys (set (compositeKeyNames (arg2 args))) cols"
    by (rule declaredByE)
  let ?S = "set (compositeKeyNames (arg2 args))"
  from assms(4) h(5) obtain c0 where
    c0: "(k, c0) \<in> set cols" "c = (if k \<in> ?S then markedPrimary c0 else c0)"
    by (auto dest: in_markKeys)
  from tableColumns_source [OF h(4) c0(1)] obtain before nm init after where
    src: "arg1 args = Some (ObjectLiteralExpression (before @ PropertyAssignment nm init # after))"
         "keyOf (escapedText nm) = k" "getColumn getText init (escapedText nm) = Inr c0"
         "\<forall>p\<in>set after. propertyKey p \<noteq> Some k"
    by blast
  note n = getColumn_nullable [OF src(3)]
  have prim: "col_primary c \<longrightarrow> \<not> col_nullable c"
    using n(1) c0(2) by (simp add: markedPrimary_def)
  have applied: "Some ''notNull'' \<in> set (appliedMethods init) \<or>
                 Some ''primaryKey'' \<in> set (appliedMethods init) \<or> k \<in> ?S \<longrightarrow> \<not> col_nullable c"
    using n(2) c0(2) by (auto simp: markedPrimary_def)
  have member: "k \<in> ?S \<longrightarrow> col_primary c"
    using c0(2) by (simp add: markedPrimary_def)
  have source: "\<exists>fname tbl callee args before nm init after c0.
             (fname, VariableDeclaration tbl (Some (CallExpression callee args))) \<in> set ?decls \<and>
             escapedText callee = Some ''pgTable'' \<and>
             toKey (getProp (var2entity ctx) (keyOf (escapedText tbl))) = ent \<and>
             arg1 args = Some (ObjectLiteralExpression (before @ PropertyAssignment nm init # after)) \<and>
             keyOf (escapedText nm) = k \<and>
             (\<forall>p\<in>set after. propertyKey p \<noteq> Some k) \<and>
             getColumn getText init (escapedText nm) = Inr c0 \<and>
             c = (if k \<in> set (compositeKeyNames (arg2 args)) then markedPrimary c0 else c0) \<and>
             (Some ''notNull'' \<in> set (appliedMethods init) \<or>
              Some ''primaryKey'' \<in> set (appliedMethods init) \<or>
              k \<in> set (compositeKeyNames (arg2 args)) \<longrightarrow> \<not> col_nullable c) \<and>
             (k \<in> set (compositeKeyNames (arg2 args)) \<longrightarrow> col_primary c)"
    using decl(1) h(1,2,3) src c0(2) applied member by blast
  have emitted: "\<exists>text. (outputName (sourceFile ctx ent), text) \<in> set out \<and>
                    hasInfix (joinWith newline (columnLines k c)) text"
    if once: "\<forall>(ent', d') \<in> set (entityData ctx).
               outputName (sourceFile ctx ent') = outputName (sourceFile ctx ent) \<longrightarrow>
               sourceFile ctx ent' = sourceFile ctx ent"
  proof -
    from assms(1,2) have "emitFiles ctx = Inr out"
      by (simp add: convertSchemas_def)
    from emitted_entity [OF this assms(3) once] obtain schemas where
      s: "(outputName (sourceFile ctx ent), fileText (entityData ctx) schemas) \<in> set out"
         "entityText ent d \<in> set schemas"
      by blast
    have "occursIn (joinWith newline (columnLines k c)) (fileText (entityData ctx) schemas)"
      using block_in_entityText [OF assms(4)] entry_in_fileText [OF s(2)]
      by (rule occursIn_trans)
    with s(1) show ?thesis
      unfolding hasInfix_iff by blast
  qed
  have line: "\<not> col_nullable c \<longrightarrow> ''        nullable: false,'' \<in> set (columnLines k c)"
    by (simp add: nullable_false_line)
  from prim source emitted line show ?thesis by blast
qed

theorem not_null_and_primary_key_columns_are_not_nullable_witness:
  "buildEntities identifierText membershipsInput = Inr membershipsModel
   \<and> (''Memberships'', membershipsEntity) \<in> set (entityData membershipsModel)
   \<and> (''teamId'', teamIdColumn) \<in> set (columns membershipsEntity)
   \<and> ''teamId'' \<in> set (compositeKeyNames (Some membershipKey))
   \<and> Some ''notNull'' \<in> set (appliedMethods
         (methodCall (callOf ''uuid'' [StringLiteral ''user_id'']) ''notNull'' []))
   \<and> col_primary teamIdColumn \<and> \<not> col_nullable teamIdColumn
   \<and> ''        nullable: false,'' \<in> set (columnLines ''teamId'' teamIdColumn)
   \<and> (\<exists>out text. convertSchemas identifierText membershipsInput = Inr out \<and>
         (''memberships.js'', text) \<in> set out \<and>
         hasInfix (joinWith newline (columnLines ''teamId'' teamIdColumn)) text)"
proof -
  have 1: "buildEntities identifierText membershipsInput = Inr membershipsModel" by code_simp
  have "case emitFiles membershipsModel of Inl e \<Rightarrow> False | Inr out \<Rightarrow> True" by code_simp
  then obtain out where "emitFiles membershipsModel = Inr out"
    by (cases "emitFiles membershipsModel") auto
  with 1 have 2: "convertSchemas identifierText membershipsInput = Inr out"
    by (simp add: convertSchemas_def)
  have 3: "(''Memberships'', membershipsEntity) \<in> set (entityData membershipsModel)"
    by (simp add: membershipsModel_def)
  have 4: "(''teamId'', teamIdColumn) \<in> set (columns membershipsEntity)"
    by (simp add: membershipsEntity_def)
  have 5: "\<forall>(ent', d') \<in> set (entityData membershipsModel).
             outputName (sourceFile membershipsModel ent')
               = outputName (sourceFile membershipsModel ''Memberships'') \<longrightarrow>
             sourceFile membershipsModel ent' = sourceFile membershipsModel ''Memberships''"
    by (simp add: membershipsModel_def)
  have 6: "outputName (sourceFile membershipsModel ''Memberships'') = ''memberships.js''"
    by code_simp
  have 7: "col_primary teamIdColumn"
    by (simp add: teamIdColumn_def)
  have 8: "''teamId'' \<in> set (compositeKeyNames (Some membershipKey))"
    by code_simp
  have 9: "Some ''notNull'' \<in> set (appliedMethods
             (methodCall (callOf ''uuid'' [StringLiteral ''user_id'']) ''notNull'' []))"
    by code_simp
  from not_null_and_primary_key_columns_are_not_nullable [OF 1 2 3 4] 1 2 3 4 5 6 7 8 9
  show ?thesis by auto
qed

section \<open>The scenarios of the specification\<close>

text \<open>
  The model gives what the specification expects in its first three scenarios: the column
  descriptors of scenario 1 and their printed blocks, the relation kinds, join column and
  mutual inverse sides of scenario 2, and the many-to-many pair with one owner of scenario 3.
\<close>

lemma scenario_1:
  "entityColumns identifierText scenario1 ''Users'' =
     [(''id'', newColumn\<lparr>col_type := JStr ''uuid'', col_nullable := False, col_primary := True,
                          col_generated := Some ''uuid''\<rparr>),
      (''name'', newColumn\<lparr>col_type := JStr ''varchar'', col_nullable := False\<rparr>),
      (''createdAt'', newColumn\<lparr>col_type := JStr ''timestamp'', col_nullable := False,
                                 col_name := Some ''created_at'', col_createDate := True\<rparr>)]"
  by code_simp

lemma scenario_2:
  "map localName (resolvedStubs identifierText scenario2) = [Some ''posts'', Some ''author'']
   \<and> map relType (resolvedStubs identifierText scenario2) = [OneToMany, ManyToOne]
   \<and> map joinColumnName (resolvedStubs identifierText scenario2) = [None, Some ''author_id'']
   \<and> map inverseSide (resolvedStubs identifierText scenario2) = [Some ''author'', Some ''posts'']"
  by code_simp

lemma scenario_3:
  "map relType (resolvedStubs identifierText scenario3) = [ManyToMany, ManyToMany]
   \<and> map isOwner (resolvedStubs identifierText scenario3) = [True, False]
   \<and> map inverseSide (resolvedStubs identifierText scenario3) = [Some ''students'', Some ''courses'']"
  by code_simp

lemma scenario_1_lines:
  "concat (map (\<lambda>(k, c). columnLines k c) (entityColumns identifierText scenario1 ''Users'')) =
    [''      id: {'',
     ''        type: '' @ quoted ''uuid'' @ '','',
     ''        primary: true,'',
     ''        generated: '' @ quoted ''uuid'' @ '','',
     ''        nullable: false,'',
     ''      },'',
     ''      name: {'',
     ''        type: '' @ quoted ''varchar'' @ '','',
     ''        nullable: false,'',
     ''      },'',
     ''      createdAt: {'',
     ''        type: '' @ quoted ''timestamp'' @ '','',
     ''        name: '' @ quoted ''created_at'' @ '','',
     ''        nullable: false,'',
     ''        createDate: true,'',
     ''      },'']"
  by code_simp

text \<open>Scenario 5: the printed default of a column with \<^verbatim>\<open>default(sql`CURRENT_TIMESTAMP`)\<close>.\<close>

lemma scenario_5:
  "map_sum id (columnLines ''seen'') (getColumn identifierText sqlTaggedDefault (Some ''seen'')) =
     Inr [''      seen: {'',
          ''        type: '' @ quoted ''timestamp'' @ '','',
          ''        nullable: true,'',
          ''        default: '' @ quoted ''CURRENT_TIMESTAMP'' @ '','',
          ''      },'']"
  by code_simp

text \<open>The file that scenario 1 gives, whole.\<close>

lemma scenario_1_file:
  "convertSchemas identifierText scenario1 =
     Inr [(''users.js'', joinWith newline
       [''const typeorm = require('' @ quoted ''typeorm'' @ '');'',
        ''const { EntitySchema } = typeorm;'',
        [],
        ''/**'',
        '' * @typedef {Object} Users'',
        '' * @property {string} id'',
        '' * @property {string} name'',
        '' * @property {Date} createdAt'',
        '' */'',
        [],
        ''module.exports = {'',
        ''  /** @type {typeorm.EntitySchema<Users>} */'',
        ''  Users: new EntitySchema({'',
        ''    name: '' @ quoted ''Users'' @ '','',
        ''    tableName: '' @ quoted ''users'' @ '','',
        ''    columns: {'',
        ''      id: {'',
        ''        type: '' @ quoted ''uuid'' @ '','',
        ''        primary: true,'',
        ''        generated: '' @ quoted ''uuid'' @ '','',
        ''        nullable: false,'',
        ''      },'',
        ''      name: {'',
        ''        type: '' @ quoted ''varchar'' @ '','',
        ''        nullable: false,'',
        ''      },'',
        ''      createdAt: {'',
        ''        type: '' @ quoted ''timestamp'' @ '','',
        ''        name: '' @ quoted ''created_at'' @ '','',
        ''        nullable: false,'',
        ''        createDate: true,'',
        ''      },'',
        ''    },'',
        ''  })'',
        ''};''])]"
  by code_simp

end
